theory Spec2Isabelle
  imports Complex_Main "HOL-Library.Sublist"
begin

section \<open>Values and definitions\<close>

text \<open>
  The command-line engine of \<^verbatim>\<open>draft/cli/index.ts\<close>. A token is a \<^typ>\<open>string\<close>, a list of
  characters read one code unit at a time, as \<^verbatim>\<open>arg[0]\<close>, \<^verbatim>\<open>arg.substr(1)\<close> and
  \<^verbatim>\<open>flags[i]\<close> read it; a \<^typ>\<open>char\<close> is a code unit below \<open>0x100\<close>.

  \<^verbatim>\<open>Number(arg)\<close> yields a double. A literal whose value rounds to zero is \<open>Finite 0\<close>,
  one whose value rounds beyond the largest double is an infinity; for any other literal
  the model keeps the value of the literal (a rational), which stands for the double
  nearest to it.
\<close>

datatype jsnum = NaN | Infinity bool | Finite rat

datatype jsval = Undefined | Str string | Num jsnum | Bool bool

text \<open>The \<^verbatim>\<open>type\<close> of a definition is a constructor function; \<^verbatim>\<open>castArgument\<close>
  tells \<^verbatim>\<open>String\<close>, \<^verbatim>\<open>Number\<close> and \<^verbatim>\<open>Boolean\<close> from anything else.\<close>

datatype jstype = StringT | NumberT | BooleanT | OtherT

record OptionDefinition =
  o_name :: string
  o_flag :: "string option"
  o_required :: bool
  o_toggle :: bool
  o_default :: jsval
  o_type :: jstype

record ParamDefinition =
  p_type :: jstype
  p_default :: jsval

text \<open>What \<^verbatim>\<open>load\<close> reads of the command it has instantiated. \<^verbatim>\<open>optionDefinitions\<close>
  may be undefined (\<^term>\<open>None\<close>); an array, also an empty one, is truthy.\<close>

record Command =
  optionDefinitions :: "OptionDefinition list option"
  paramDefinitions :: "ParamDefinition list"
  requiredParamsNumber :: nat

record Context =
  cwd :: string
  args :: "string list"
  commands :: "string list"

datatype error =
    UnknownOptionFlag char
  | UnknownOption string
  | NonTerminalFlagTakesValue
  | MissingOptionValue string
  | OptionValueLooksLikeOption string string
  | InsufficientPositionalArguments nat nat
  | MissingRequiredOptions "string set"
  | TypeError
  | ModuleNotFound string

text \<open>How a run of \<^verbatim>\<open>load\<close> ends: \<^verbatim>\<open>command.help(commandSequence)\<close>, a thrown error, or
  \<^verbatim>\<open>command.execute(...commandArgs, ...executeMethodArgs)\<close>, where the options record is
  present only when it was pushed.\<close>

datatype outcome =
    Help "string list"
  | Failure error
  | Execute "jsval list" "(string \<rightharpoonup> jsval) option" Context

section \<open>Type coercion\<close>

text \<open>\<^verbatim>\<open>toLowerCase\<close>: the capital letters of ASCII, and those from \<open>0xC0\<close> to \<open>0xDE\<close>
  (all but the multiplication sign \<open>0xD7\<close>), have their small letter \<open>0x20\<close> above.\<close>

definition upperCaseLetters :: string where
  "upperCaseLetters =
     ''ABCDEFGHIJKLMNOPQRSTUVWXYZ''
     @ [CHR 0xC0, CHR 0xC1, CHR 0xC2, CHR 0xC3, CHR 0xC4, CHR 0xC5, CHR 0xC6, CHR 0xC7,
        CHR 0xC8, CHR 0xC9, CHR 0xCA, CHR 0xCB, CHR 0xCC, CHR 0xCD, CHR 0xCE, CHR 0xCF,
        CHR 0xD0, CHR 0xD1, CHR 0xD2, CHR 0xD3, CHR 0xD4, CHR 0xD5, CHR 0xD6,
        CHR 0xD8, CHR 0xD9, CHR 0xDA, CHR 0xDB, CHR 0xDC, CHR 0xDD, CHR 0xDE]"

definition lowerCaseLetters :: string where
  "lowerCaseLetters =
     ''abcdefghijklmnopqrstuvwxyz''
     @ [CHR 0xE0, CHR 0xE1, CHR 0xE2, CHR 0xE3, CHR 0xE4, CHR 0xE5, CHR 0xE6, CHR 0xE7,
        CHR 0xE8, CHR 0xE9, CHR 0xEA, CHR 0xEB, CHR 0xEC, CHR 0xED, CHR 0xEE, CHR 0xEF,
        CHR 0xF0, CHR 0xF1, CHR 0xF2, CHR 0xF3, CHR 0xF4, CHR 0xF5, CHR 0xF6,
        CHR 0xF8, CHR 0xF9, CHR 0xFA, CHR 0xFB, CHR 0xFC, CHR 0xFD, CHR 0xFE]"

definition toLowerChar :: "char \<Rightarrow> char" where
  "toLowerChar c =
     (case map_of (zip upperCaseLetters lowerCaseLetters) c of
        Some l \<Rightarrow> l
      | None \<Rightarrow> c)"

definition toLowerCase :: "string \<Rightarrow> string" where
  "toLowerCase s = map toLowerChar s"

text \<open>\<^verbatim>\<open>Number(string)\<close>: white space is trimmed; the empty string is 0; then a binary,
  octal or hexadecimal integer literal without sign, or a signed decimal literal
  (\<^verbatim>\<open>Infinity\<close>, digits with an optional fraction and exponent); anything else is NaN.
  The white space and line terminators below \<open>0x100\<close> are tab, line feed, vertical tab,
  form feed, carriage return, space and the no-break space \<open>0xA0\<close>.\<close>

definition isWhiteSpace :: "char \<Rightarrow> bool" where
  "isWhiteSpace c =
     (c \<in> set [CHR 0x09, CHR 0x0A, CHR 0x0B, CHR 0x0C, CHR 0x0D, CHR '' '', CHR 0xA0])"

definition trim :: "string \<Rightarrow> string" where
  "trim s = rev (dropWhile isWhiteSpace (rev (dropWhile isWhiteSpace s)))"

definition digitValue :: "char \<Rightarrow> nat option" where
  "digitValue c =
     (let n = (of_char c :: nat) in
      if 48 \<le> n \<and> n \<le> 57 then Some (n - 48)
      else if 97 \<le> n \<and> n \<le> 102 then Some (n - 87)
      else if 65 \<le> n \<and> n \<le> 70 then Some (n - 55)
      else None)"

fun digitsValue :: "nat \<Rightarrow> nat \<Rightarrow> string \<Rightarrow> nat option" where
  "digitsValue base acc [] = Some acc"
| "digitsValue base acc (c # cs) =
     (case digitValue c of
        None \<Rightarrow> None
      | Some d \<Rightarrow> if d < base then digitsValue base (acc * base + d) cs else None)"

text \<open>Rounding to the nearest double, ties to even, at the two ends of the range: up to
  half of the least positive double \<open>2 ^ -1074\<close> the result is zero, and from half an
  ulp above the largest double \<open>2 ^ 1024 - 2 ^ 971\<close> on it is an infinity, positive for
  \<^term>\<open>True\<close>.\<close>

definition toDouble :: "rat \<Rightarrow> jsnum" where
  "toDouble q =
     (if \<bar>q\<bar> \<le> 1 / 2 ^ 1075 then Finite 0
      else if 2 ^ 1024 - 2 ^ 970 \<le> \<bar>q\<bar> then Infinity (0 < q)
      else Finite q)"

definition integerLiteral :: "nat \<Rightarrow> string \<Rightarrow> jsnum" where
  "integerLiteral base ds =
     (if ds = [] then NaN
      else case digitsValue base 0 ds of None \<Rightarrow> NaN | Some n \<Rightarrow> toDouble (of_nat n))"

definition isDecimalDigit :: "char \<Rightarrow> bool" where
  "isDecimalDigit c = (48 \<le> (of_char c :: nat) \<and> (of_char c :: nat) \<le> 57)"

definition scale10 :: "nat \<Rightarrow> int \<Rightarrow> rat" where
  "scale10 m e = (if 0 \<le> e then of_nat m * 10 ^ nat e else of_nat m / 10 ^ nat (- e))"

definition exponentPart :: "string \<Rightarrow> int option" where
  "exponentPart s =
     (case s of
        [] \<Rightarrow> Some 0
      | c # cs \<Rightarrow>
          if c = CHR ''e'' \<or> c = CHR ''E'' then
            (let (neg, ds) =
               (case cs of
                  [] \<Rightarrow> (False, [])
                | d # ds' \<Rightarrow> if d = CHR ''-'' then (True, ds')
                             else if d = CHR ''+'' then (False, ds') else (False, cs))
             in if ds = [] then None
                else case digitsValue 10 0 ds of
                       None \<Rightarrow> None
                     | Some n \<Rightarrow> Some (if neg then - int n else int n))
          else None)"

definition unsignedDecimalLiteral :: "string \<Rightarrow> jsnum" where
  "unsignedDecimalLiteral s =
     (if s = ''Infinity'' then Infinity True
      else
        let ip = takeWhile isDecimalDigit s;
            r1 = dropWhile isDecimalDigit s;
            dot = (r1 \<noteq> [] \<and> hd r1 = CHR ''.'');
            r2 = (if dot then tl r1 else r1);
            fp = (if dot then takeWhile isDecimalDigit r2 else []);
            r3 = (if dot then dropWhile isDecimalDigit r2 else r2)
        in if ip = [] \<and> fp = [] then NaN
           else case (exponentPart r3, digitsValue 10 0 (ip @ fp)) of
                  (Some e, Some m) \<Rightarrow> toDouble (scale10 m (e - int (length fp)))
                | _ \<Rightarrow> NaN)"

definition negate :: "jsnum \<Rightarrow> jsnum" where
  "negate n = (case n of NaN \<Rightarrow> NaN | Infinity b \<Rightarrow> Infinity (\<not> b) | Finite q \<Rightarrow> Finite (- q))"

definition Number :: "string \<Rightarrow> jsnum" where
  "Number arg =
     (let s = trim arg in
      if s = [] then Finite 0
      else if take 2 s \<in> set [''0x'', ''0X''] then integerLiteral 16 (drop 2 s)
      else if take 2 s \<in> set [''0o'', ''0O''] then integerLiteral 8 (drop 2 s)
      else if take 2 s \<in> set [''0b'', ''0B''] then integerLiteral 2 (drop 2 s)
      else if hd s = CHR ''-'' then negate (unsignedDecimalLiteral (tl s))
      else if hd s = CHR ''+'' then unsignedDecimalLiteral (tl s)
      else unsignedDecimalLiteral s)"

definition isNaN :: "jsnum \<Rightarrow> bool" where
  "isNaN n = (n = NaN)"

text \<open>\<^verbatim>\<open>Boolean(n)\<close> is false for NaN and for the zeros, true for every other number.\<close>

definition Boolean :: "jsnum \<Rightarrow> bool" where
  "Boolean n = (case n of NaN \<Rightarrow> False | Infinity b \<Rightarrow> True | Finite q \<Rightarrow> q \<noteq> 0)"

definition castArgument :: "string \<Rightarrow> jstype \<Rightarrow> jsval" where
  "castArgument arg ty =
     (case ty of
        StringT \<Rightarrow> Str arg
      | NumberT \<Rightarrow> Num (Number arg)
      | BooleanT \<Rightarrow>
          if toLowerCase arg = ''false'' then Bool False
          else (let n = Number arg in if isNaN n then Bool True else Bool (Boolean n))
      | OtherT \<Rightarrow> Undefined)"

section \<open>Binding the tokens in \<^verbatim>\<open>load\<close>\<close>

text \<open>
  The four tables \<^verbatim>\<open>commandOptions\<close>, \<^verbatim>\<open>optionDefinitionMap\<close>, \<^verbatim>\<open>requiredOptionMap\<close> and
  \<^verbatim>\<open>flagToNameMapping\<close> are assigned together, inside \<^verbatim>\<open>if (optionDefinitions)\<close>, and are
  undefined together otherwise: the invocation holds them as one optional record.

  Each table is a plain object \<^verbatim>\<open>{}\<close> used as a dictionary; the model keeps its own
  properties as a map. \<^verbatim>\<open>requiredOptionMap\<close> only ever maps a name to \<^verbatim>\<open>true\<close>; it is the
  set of its keys. Two keys reach the machinery that a plain object inherits from
  \<^verbatim>\<open>Object.prototype\<close>:
  \<^item> an assignment to the key \<^verbatim>\<open>__proto__\<close> runs the inherited setter and makes no own
    property: a value that is no object (a boolean, a string, a number, \<^verbatim>\<open>undefined\<close>:
    every \<^typ>\<open>jsval\<close>) is ignored, and an option definition, an object, becomes the
    prototype of \<^verbatim>\<open>optionDefinitionMap\<close>, which the read \<^verbatim>\<open>optionDefinitionMap['__proto__']\<close>
    gives back;
  \<^item> an own property \<^verbatim>\<open>hasOwnProperty\<close> hides the inherited method, and the call
    \<^verbatim>\<open>table.hasOwnProperty(key)\<close> of a value that is no function throws a type error.
  Option definitions are taken to be ordinary objects that inherit from
  \<^verbatim>\<open>Object.prototype\<close>.
\<close>

record tables =
  commandOptions :: "string \<rightharpoonup> jsval"
  optionDefinitionMap :: "string \<rightharpoonup> OptionDefinition"
  definitionPrototype :: "OptionDefinition option"
  requiredOptionMap :: "string set"
  flagToNameMapping :: "string \<rightharpoonup> string"

record invocation =
  commandArgs :: "jsval list"
  commandExtraArgs :: "string list"
  optionTables :: "tables option"
  pendingParamDefinitions :: "ParamDefinition list"

definition emptyTables :: tables where
  "emptyTables =
     \<lparr>commandOptions = Map.empty, optionDefinitionMap = Map.empty,
      definitionPrototype = None, requiredOptionMap = {}, flagToNameMapping = Map.empty\<rparr>"

text \<open>\<^verbatim>\<open>object[key] = v\<close> for a value \<open>v\<close> that is no object.\<close>

definition setProperty :: "(string \<rightharpoonup> 'v) \<Rightarrow> string \<Rightarrow> 'v \<Rightarrow> (string \<rightharpoonup> 'v)" where
  "setProperty object key v = (if key = ''__proto__'' then object else object(key \<mapsto> v))"

text \<open>\<^verbatim>\<open>optionDefinitionMap[name] = definition\<close>, the value being an object.\<close>

definition setDefinition :: "string \<Rightarrow> OptionDefinition \<Rightarrow> tables \<Rightarrow> tables" where
  "setDefinition name definition t =
     (if name = ''__proto__'' then t\<lparr>definitionPrototype := Some definition\<rparr>
      else t\<lparr>optionDefinitionMap := (optionDefinitionMap t)(name \<mapsto> definition)\<rparr>)"

text \<open>The read \<^verbatim>\<open>optionDefinitionMap[name]\<close> in \<^verbatim>\<open>consumeFlags\<close>, which no test of
  \<^verbatim>\<open>hasOwnProperty\<close> guards. The name comes out of \<^verbatim>\<open>flagToNameMapping\<close>, so it was
  registered together with its definition: it is an own key, or it is \<^verbatim>\<open>__proto__\<close> and
  the definition is the prototype.\<close>

definition readDefinition :: "tables \<Rightarrow> string \<Rightarrow> OptionDefinition option" where
  "readDefinition t name =
     (if name = ''__proto__'' then definitionPrototype t else optionDefinitionMap t name)"

text \<open>Whether \<^verbatim>\<open>table.hasOwnProperty\<close> is an own property of the table, not the method.\<close>

definition shadowed :: "(string \<rightharpoonup> 'v) \<Rightarrow> bool" where
  "shadowed object = (object ''hasOwnProperty'' \<noteq> None)"

text \<open>The body of \<^verbatim>\<open>for (let definition of optionDefinitions)\<close>. An undefined or empty
  \<^verbatim>\<open>flag\<close> is falsy and registers nothing.\<close>

definition registerOption :: "OptionDefinition \<Rightarrow> tables \<Rightarrow> tables" where
  "registerOption d t =
     (let t1 = setDefinition (o_name d) d t;
          t2 = (case o_flag d of
                  None \<Rightarrow> t1
                | Some f \<Rightarrow>
                    if f = [] then t1
                    else t1\<lparr>flagToNameMapping :=
                              setProperty (flagToNameMapping t1) f (o_name d)\<rparr>);
          t3 = (if o_required d \<and> o_name d \<noteq> ''__proto__''
                then t2\<lparr>requiredOptionMap := insert (o_name d) (requiredOptionMap t2)\<rparr>
                else t2)
      in if o_toggle d
         then t3\<lparr>commandOptions := setProperty (commandOptions t3) (o_name d) (Bool False)\<rparr>
         else t3\<lparr>commandOptions := setProperty (commandOptions t3) (o_name d) (o_default d)\<rparr>)"

definition initTables :: "OptionDefinition list option \<Rightarrow> tables option" where
  "initTables ods =
     (case ods of None \<Rightarrow> None | Some ds \<Rightarrow> Some (fold registerOption ds emptyTables))"

definition initInvocation :: "Command \<Rightarrow> invocation" where
  "initInvocation command =
     \<lparr>commandArgs = [], commandExtraArgs = [],
      optionTables = initTables (optionDefinitions command),
      pendingParamDefinitions = paramDefinitions command\<rparr>"

text \<open>\<^verbatim>\<open>/^(?:-[h?]|--help)$/\<close>: without the \<^verbatim>\<open>m\<close> flag, \<^verbatim>\<open>$\<close> is the end of input.\<close>

definition isHelp :: "string \<Rightarrow> bool" where
  "isHelp arg = (arg \<in> set [''-h'', ''-?'', ''--help''])"

text \<open>The token queue \<^verbatim>\<open>args\<close> is passed beside the invocation; \<^verbatim>\<open>args.shift()\<close> on an
  empty queue is \<^verbatim>\<open>undefined\<close>. Every value stored in \<^verbatim>\<open>commandOptions\<close> is the result of
  \<^verbatim>\<open>castArgument\<close>, \<^verbatim>\<open>true\<close>, \<^verbatim>\<open>false\<close> or a declared default.\<close>

definition consumeOption ::
  "string \<Rightarrow> OptionDefinition \<Rightarrow> tables \<Rightarrow> string list \<Rightarrow> error + (tables \<times> string list)" where
  "consumeOption name definition t queue =
     (case queue of
        [] \<Rightarrow> Inl (MissingOptionValue name)
      | arg # rest \<Rightarrow>
          if take 1 arg = ''-'' then Inl (OptionValueLooksLikeOption arg name)
          else Inr (t\<lparr>commandOptions :=
                        setProperty (commandOptions t) name
                          (castArgument arg (o_type definition))\<rparr>,
                    rest))"

definition markSupplied :: "string \<Rightarrow> OptionDefinition \<Rightarrow> tables \<Rightarrow> tables" where
  "markSupplied name definition t =
     (if o_required definition
      then t\<lparr>requiredOptionMap := requiredOptionMap t - {name}\<rparr> else t)"

definition consumeToggleOrOption ::
  "string \<Rightarrow> tables option \<Rightarrow> string list \<Rightarrow> error + (tables option \<times> string list)" where
  "consumeToggleOrOption name ot queue =
     (case ot of
        None \<Rightarrow> Inl TypeError
      | Some t \<Rightarrow>
          if shadowed (optionDefinitionMap t) then Inl TypeError
          else
            (case optionDefinitionMap t name of
               None \<Rightarrow> Inl (UnknownOption name)
             | Some definition \<Rightarrow>
                 let t1 = markSupplied name definition t in
                 if o_toggle definition
                 then Inr (Some (t1\<lparr>commandOptions :=
                                     setProperty (commandOptions t1) name (Bool True)\<rparr>),
                           queue)
                 else (case consumeOption name definition t1 queue of
                         Inl e \<Rightarrow> Inl e
                       | Inr (t2, queue') \<Rightarrow> Inr (Some t2, queue'))))"

text \<open>The loop of \<^verbatim>\<open>consumeFlags\<close> over the characters of the cluster; \<^verbatim>\<open>i\<close> is the last
  index exactly when no character follows. A name without a definition would make
  \<^verbatim>\<open>definition.required\<close> throw; no table built by \<^verbatim>\<open>load\<close> holds one.\<close>

fun consumeFlags ::
  "string \<Rightarrow> tables option \<Rightarrow> string list \<Rightarrow> error + (tables option \<times> string list)" where
  "consumeFlags [] ot queue = Inr (ot, queue)"
| "consumeFlags (flag # flags) ot queue =
     (case ot of
        None \<Rightarrow> Inl (UnknownOptionFlag flag)
      | Some t \<Rightarrow>
          if shadowed (flagToNameMapping t) then Inl TypeError
          else
            (case flagToNameMapping t [flag] of
               None \<Rightarrow> Inl (UnknownOptionFlag flag)
             | Some name \<Rightarrow>
                 (case readDefinition t name of
                    None \<Rightarrow> Inl TypeError
                  | Some definition \<Rightarrow>
                      let t1 = markSupplied name definition t in
                      if o_toggle definition
                      then consumeFlags flags
                             (Some (t1\<lparr>commandOptions :=
                                        setProperty (commandOptions t1) name (Bool True)\<rparr>))
                             queue
                      else if flags \<noteq> [] then Inl NonTerminalFlagTakesValue
                      else (case consumeOption name definition t1 queue of
                              Inl e \<Rightarrow> Inl e
                            | Inr (t2, queue') \<Rightarrow> consumeFlags flags (Some t2) queue'))))"

definition consumeArgument :: "string \<Rightarrow> invocation \<Rightarrow> invocation" where
  "consumeArgument arg st =
     (case pendingParamDefinitions st of
        definition # pending \<Rightarrow>
          st\<lparr>pendingParamDefinitions := pending,
             commandArgs := commandArgs st @ [castArgument arg (p_type definition)]\<rparr>
      | [] \<Rightarrow> st\<lparr>commandExtraArgs := commandExtraArgs st @ [arg]\<rparr>)"

text \<open>One pass of the \<^verbatim>\<open>while\<close> body after the help test: the token \<^verbatim>\<open>arg\<close> has been
  shifted off, \<^verbatim>\<open>queue\<close> is what is left.\<close>

definition consume ::
  "invocation \<Rightarrow> string \<Rightarrow> string list \<Rightarrow> error + (invocation \<times> string list)" where
  "consume st arg queue =
     (if take 1 arg = ''-'' then
        (case (if take 1 (drop 1 arg) = ''-''
               then consumeToggleOrOption (drop 2 arg) (optionTables st) queue
               else consumeFlags (drop 1 arg) (optionTables st) queue) of
           Inl e \<Rightarrow> Inl e
         | Inr (ot, queue') \<Rightarrow> Inr (st\<lparr>optionTables := ot\<rparr>, queue'))
      else Inr (consumeArgument arg st, queue))"

datatype binding = ShowHelp | Thrown error | Bound invocation

function bindTokens :: "invocation \<Rightarrow> string list \<Rightarrow> binding" where
  "bindTokens st [] = Bound st"
| "bindTokens st (arg # queue) =
     (if isHelp arg then ShowHelp
      else (case consume st arg queue of
              Inl e \<Rightarrow> Thrown e
            | Inr (st', queue') \<Rightarrow> bindTokens st' queue'))"
  by pat_completeness auto
termination
proof (relation "measure (\<lambda>(st, queue). length queue)")
  show "wf (measure (\<lambda>(st :: invocation, queue :: string list). length queue))"
    by simp
next
  fix st :: invocation and arg :: string and queue :: "string list"
    and x :: "invocation \<times> string list" and st' :: invocation and queue' :: "string list"
  assume run: "consume st arg queue = Inr x" and x: "(st', queue') = x"
  have opt: "length q' < length q"
    if "consumeOption name d t q = Inr (t', q')" for name d t q t' q'
    using that by (auto simp: consumeOption_def split: list.splits if_splits)
  have long: "length q' \<le> length q"
    if "consumeToggleOrOption name ot q = Inr (ot', q')" for name ot q ot' q'
    using that
    by (auto simp: consumeToggleOrOption_def Let_def
        split: option.splits if_splits sum.splits dest: opt)
  have cluster: "length q' \<le> length q"
    if "consumeFlags flags ot q = Inr (ot', q')" for flags ot q ot' q'
    using that
  proof (induction flags ot q rule: consumeFlags.induct)
    case (1 ot queue)
    then show ?case by simp
  next
    case (2 flag flags ot queue)
    then show ?case
      by (fastforce simp: Let_def split: option.splits if_splits sum.splits dest: opt)
  qed
  have "length queue' \<le> length queue"
    using run x
    by (auto simp: consume_def split: if_splits sum.splits dest: long cluster)
  then show "((st', queue'), (st, arg # queue)) \<in> measure (\<lambda>(st, queue). length queue)"
    by simp
qed

definition load :: "Command \<Rightarrow> string list \<Rightarrow> string list \<Rightarrow> string \<Rightarrow> outcome" where
  "load command commandSequence queue dir =
     (case bindTokens (initInvocation command) queue of
        ShowHelp \<Rightarrow> Help commandSequence
      | Thrown e \<Rightarrow> Failure e
      | Bound st \<Rightarrow>
          let expecting = requiredParamsNumber command;
              got = length (commandArgs st)
          in if got < expecting then Failure (InsufficientPositionalArguments expecting got)
             else
               let missingOptionNames =
                     (case optionTables st of None \<Rightarrow> {} | Some t \<Rightarrow> requiredOptionMap t)
               in if missingOptionNames \<noteq> {}
                  then Failure (MissingRequiredOptions missingOptionNames)
                  else Execute
                         (commandArgs st @ map p_default (pendingParamDefinitions st))
                         (map_option commandOptions (optionTables st))
                         \<lparr>cwd = dir, args = commandExtraArgs st, commands = commandSequence\<rparr>)"

section \<open>Resolving the command in \<^verbatim>\<open>parse\<close>\<close>

text \<open>\<^verbatim>\<open>/^[\w\d]+(?:-[\w\d]+)*$/\<close>: one or more words of letters, digits and underscores,
  joined by single hyphens. \<^term>\<open>validName inWord s\<close> reads \<open>s\<close> from the state
  \<open>inWord\<close>, which says whether the word being read has a character yet.\<close>

definition isWordChar :: "char \<Rightarrow> bool" where
  "isWordChar c =
     (let n = (of_char c :: nat)
      in (48 \<le> n \<and> n \<le> 57) \<or> (65 \<le> n \<and> n \<le> 90) \<or> (97 \<le> n \<and> n \<le> 122) \<or> n = 95)"

fun validName :: "bool \<Rightarrow> string \<Rightarrow> bool" where
  "validName inWord [] = inWord"
| "validName inWord (c # cs) =
     (if isWordChar c then validName True cs
      else if c = CHR ''-'' \<and> inWord then validName False cs
      else False)"

definition validCommandName :: "string \<Rightarrow> bool" where
  "validCommandName arg = validName False arg"

text \<open>\<open>rootDir\<close> is the resolved \<^verbatim>\<open>root\<close>, an absolute path without a trailing separator unless
  it is the file-system root; \<^verbatim>\<open>Path.join\<close> of such a path and a name without separators
  or dots puts one separator between them. The file system is the predicate
  \<^verbatim>\<open>FS.existsSync\<close>.\<close>

definition pathJoin :: "string \<Rightarrow> string \<Rightarrow> string" where
  "pathJoin dir name = (if dir = ''/'' then dir @ name else dir @ ''/'' @ name)"

definition defaultEntry :: string where
  "defaultEntry = ''default''"

record resolution =
  searchPath :: string
  filename :: string
  argsIndex :: nat
  commandSequence :: "string list"

definition possiblePaths :: "string \<Rightarrow> string list" where
  "possiblePaths path = [path @ ''.js'', pathJoin path (defaultEntry @ ''.js'')]"

text \<open>The \<^verbatim>\<open>outer\<close> loop from index \<open>i\<close> over the tokens \<^verbatim>\<open>argv[i]\<close>, \<^verbatim>\<open>argv[i + 1]\<close>, ...;
  the inner loop takes the first possible path that exists.\<close>

fun walk :: "(string \<Rightarrow> bool) \<Rightarrow> nat \<Rightarrow> resolution \<Rightarrow> string list \<Rightarrow> resolution" where
  "walk existsSync i r [] = r"
| "walk existsSync i r (arg # rest) =
     (if validCommandName arg then
        (let path = pathJoin (searchPath r) arg in
         case find existsSync (possiblePaths path) of
           Some possiblePath \<Rightarrow>
             walk existsSync (i + 1)
               (r\<lparr>searchPath := path, filename := possiblePath, argsIndex := i + 1,
                  commandSequence := commandSequence r @ [arg]\<rparr>)
               rest
         | None \<Rightarrow>
             if \<not> existsSync path then r\<lparr>searchPath := path\<rparr>
             else walk existsSync (i + 1) (r\<lparr>searchPath := path\<rparr>) rest)
      else r)"

definition initResolution :: "string \<Rightarrow> string \<Rightarrow> resolution" where
  "initResolution rootDir entry =
     \<lparr>searchPath = rootDir, filename = pathJoin rootDir (defaultEntry @ ''.js''),
      argsIndex = 2, commandSequence = [entry]\<rparr>"

text \<open>What \<^verbatim>\<open>parse\<close> hands to \<^verbatim>\<open>load\<close>: the file name, the command sequence and
  \<^verbatim>\<open>argv.slice(argsIndex)\<close>.\<close>

definition resolve ::
  "(string \<Rightarrow> bool) \<Rightarrow> string \<Rightarrow> string \<Rightarrow> string list \<Rightarrow> string \<times> string list \<times> string list" where
  "resolve existsSync rootDir entry argv =
     (let r = walk existsSync 2 (initResolution rootDir entry) (drop 2 argv)
      in (filename r, commandSequence r, drop (argsIndex r) argv))"

text \<open>\<^verbatim>\<open>require(filename).default\<close>, initialised and instantiated, is the command that the
  loader \<open>require\<close> gives for the file name; \<^verbatim>\<open>require\<close> throws when there is no such
  module.\<close>

definition parse ::
  "(string \<Rightarrow> bool) \<Rightarrow> (string \<Rightarrow> Command option) \<Rightarrow> string \<Rightarrow> string \<Rightarrow> string list
     \<Rightarrow> string \<Rightarrow> outcome" where
  "parse existsSync require rootDir entry argv dir =
     (case resolve existsSync rootDir entry argv of
        (file, sequence, queue) \<Rightarrow>
          (case require file of
             None \<Rightarrow> Failure (ModuleNotFound file)
           | Some command \<Rightarrow> load command sequence queue dir))"

section \<open>Flags by kind\<close>

text \<open>What a flag character refers to in given tables: \<^verbatim>\<open>flagToNameMapping[flag]\<close> gives the
  name and \<^verbatim>\<open>optionDefinitionMap[name]\<close> the definition, a toggle or a value option.\<close>

definition flagDefinition :: "tables \<Rightarrow> char \<Rightarrow> OptionDefinition option" where
  "flagDefinition t flag =
     (case flagToNameMapping t [flag] of
        None \<Rightarrow> None
      | Some name \<Rightarrow> readDefinition t name)"

definition toggleFlag :: "tables \<Rightarrow> char \<Rightarrow> bool" where
  "toggleFlag t flag =
     (case flagDefinition t flag of None \<Rightarrow> False | Some definition \<Rightarrow> o_toggle definition)"

definition valueFlag :: "tables \<Rightarrow> char \<Rightarrow> bool" where
  "valueFlag t flag =
     (case flagDefinition t flag of None \<Rightarrow> False | Some definition \<Rightarrow> \<not> o_toggle definition)"

definition knownFlag :: "tables \<Rightarrow> char \<Rightarrow> bool" where
  "knownFlag t flag = (flagDefinition t flag \<noteq> None)"

section \<open>Options a token supplies\<close>

text \<open>The option names a token refers to when the loop classifies it: the long name after
  \<^verbatim>\<open>--\<close>, or the names its flag characters map to; a positional token refers to none.\<close>

definition suppliedNames :: "tables \<Rightarrow> string \<Rightarrow> string set" where
  "suppliedNames t arg =
     (if take 1 arg = ''-'' then
        (if take 1 (drop 1 arg) = ''-'' then {drop 2 arg}
         else set (List.map_filter (\<lambda>flag. flagToNameMapping t [flag]) (drop 1 arg)))
      else {})"

text \<open>The same read off an option definition: the token is the option's long name, or a
  cluster that holds the option's flag.\<close>

definition suppliedBy :: "OptionDefinition \<Rightarrow> string \<Rightarrow> bool" where
  "suppliedBy d arg =
     (arg = ''--'' @ o_name d
      \<or> (take 1 arg = ''-'' \<and> take 1 (drop 1 arg) \<noteq> ''-''
          \<and> list_ex (\<lambda>flag. o_flag d = Some [flag]) (drop 1 arg)))"

text \<open>The names of the required options that no token of the queue supplies.\<close>

definition missingOptions :: "OptionDefinition list \<Rightarrow> string list \<Rightarrow> string set" where
  "missingOptions ds queue =
     set (map o_name (filter (\<lambda>d. o_required d \<and> \<not> list_ex (suppliedBy d) queue) ds))"

text \<open>An invariant of the loop: \<^verbatim>\<open>__proto__\<close> is no key of \<^verbatim>\<open>requiredOptionMap\<close>, and every
  name still pending as required belongs to a definition that is marked required.\<close>

definition requiredConsistent :: "tables \<Rightarrow> bool" where
  "requiredConsistent t =
     (''__proto__'' \<notin> requiredOptionMap t
      \<and> (\<forall>name \<in> requiredOptionMap t.
            case optionDefinitionMap t name of None \<Rightarrow> True | Some d \<Rightarrow> o_required d))"

section \<open>Positional tokens\<close>

text \<open>Whether a token that starts with a hyphen takes the token after it as a value: a
  long name of a value option, or a cluster whose last flag is one. The positional tokens
  of a queue are the tokens that neither start with a hyphen nor are taken as a value;
  \<open>skip\<close> says that the token before took the next one.\<close>

definition takesValue :: "tables option \<Rightarrow> string \<Rightarrow> bool" where
  "takesValue ot arg =
     (case ot of
        None \<Rightarrow> False
      | Some t \<Rightarrow>
          if take 1 (drop 1 arg) = ''-''
          then (case optionDefinitionMap t (drop 2 arg) of
                  None \<Rightarrow> False
                | Some d \<Rightarrow> \<not> o_toggle d)
          else drop 1 arg \<noteq> [] \<and> valueFlag t (last (drop 1 arg)))"

fun positionalTokens :: "tables option \<Rightarrow> bool \<Rightarrow> string list \<Rightarrow> string list" where
  "positionalTokens ot skip [] = []"
| "positionalTokens ot skip (arg # queue) =
     (if skip then positionalTokens ot False queue
      else if take 1 arg = ''-'' then positionalTokens ot (takesValue ot arg) queue
      else arg # positionalTokens ot False queue)"

definition positionals :: "Command \<Rightarrow> string list \<Rightarrow> string list" where
  "positionals command queue =
     positionalTokens (initTables (optionDefinitions command)) False queue"

section \<open>Tokens that end the resolution\<close>

text \<open>A token ends the walk from the directory \<open>dir\<close> when it is no command name, or when
  neither of the two possible paths nor the directory of that name exists. A list of
  tokens passes when none of them ends the walk, each read in the directory the ones
  before it lead to.\<close>

definition halts :: "(string \<Rightarrow> bool) \<Rightarrow> string \<Rightarrow> string \<Rightarrow> bool" where
  "halts existsSync dir arg =
     (if validCommandName arg
      then find existsSync (possiblePaths (pathJoin dir arg)) = None
           \<and> \<not> existsSync (pathJoin dir arg)
      else True)"

fun passes :: "(string \<Rightarrow> bool) \<Rightarrow> string \<Rightarrow> string list \<Rightarrow> bool" where
  "passes existsSync dir [] = True"
| "passes existsSync dir (arg # rest) =
     (\<not> halts existsSync dir arg \<and> passes existsSync (pathJoin dir arg) rest)"

section \<open>Example commands and trees\<close>

text \<open>The command of the end-to-end examples: one required parameter \<^verbatim>\<open>name\<close> of type
  String and the toggle \<^verbatim>\<open>force\<close> with flag \<^verbatim>\<open>f\<close>.\<close>

definition forceOption :: OptionDefinition where
  "forceOption =
     \<lparr>o_name = ''force'', o_flag = Some ''f'', o_required = False, o_toggle = True,
      o_default = Undefined, o_type = BooleanT\<rparr>"

definition outputOption :: OptionDefinition where
  "outputOption =
     \<lparr>o_name = ''output'', o_flag = Some ''o'', o_required = True, o_toggle = False,
      o_default = Undefined, o_type = StringT\<rparr>"

definition nameParam :: ParamDefinition where
  "nameParam = \<lparr>p_type = StringT, p_default = Undefined\<rparr>"

definition countParam :: ParamDefinition where
  "countParam = \<lparr>p_type = NumberT, p_default = Num (Finite 1)\<rparr>"

definition createCommand :: Command where
  "createCommand =
     \<lparr>optionDefinitions = Some [forceOption], paramDefinitions = [nameParam],
      requiredParamsNumber = 1\<rparr>"

text \<open>A command with a required value option and a parameter with a default.\<close>

definition buildCommand :: Command where
  "buildCommand =
     \<lparr>optionDefinitions = Some [forceOption, outputOption],
      paramDefinitions = [nameParam, countParam], requiredParamsNumber = 1\<rparr>"

text \<open>The option tables of that command before any token is consumed.\<close>

definition buildTables :: tables where
  "buildTables = fold registerOption [forceOption, outputOption] emptyTables"

text \<open>A command with a numeric and an untyped value option.\<close>

definition levelOption :: OptionDefinition where
  "levelOption =
     \<lparr>o_name = ''level'', o_flag = Some ''l'', o_required = False, o_toggle = False,
      o_default = Num (Finite 0), o_type = NumberT\<rparr>"

definition rawOption :: OptionDefinition where
  "rawOption =
     \<lparr>o_name = ''raw'', o_flag = Some ''r'', o_required = False, o_toggle = False,
      o_default = Str ''none'', o_type = OtherT\<rparr>"

definition tuneCommand :: Command where
  "tuneCommand =
     \<lparr>optionDefinitions = Some [forceOption, levelOption, rawOption],
      paramDefinitions = [nameParam, countParam], requiredParamsNumber = 0\<rparr>"

text \<open>Commands with an option whose name reaches the machinery of the tables.\<close>

definition shadowOption :: OptionDefinition where
  "shadowOption =
     \<lparr>o_name = ''hasOwnProperty'', o_flag = None, o_required = False, o_toggle = True,
      o_default = Undefined, o_type = BooleanT\<rparr>"

definition shadowCommand :: Command where
  "shadowCommand =
     \<lparr>optionDefinitions = Some [forceOption, shadowOption], paramDefinitions = [],
      requiredParamsNumber = 0\<rparr>"

definition protoOption :: OptionDefinition where
  "protoOption =
     \<lparr>o_name = ''__proto__'', o_flag = Some ''p'', o_required = True, o_toggle = True,
      o_default = Undefined, o_type = BooleanT\<rparr>"

definition protoCommand :: Command where
  "protoCommand =
     \<lparr>optionDefinitions = Some [protoOption], paramDefinitions = [],
      requiredParamsNumber = 0\<rparr>"

text \<open>A command whose list of option definitions is empty.\<close>

definition plainCommand :: Command where
  "plainCommand = \<lparr>optionDefinitions = Some [], paramDefinitions = [], requiredParamsNumber = 0\<rparr>"

text \<open>A tree with a leaf module and a directory of the same name \<^verbatim>\<open>foo\<close>, a directory
  \<^verbatim>\<open>pkg\<close> with a default module and no leaf module of that name, and a directory \<^verbatim>\<open>sub\<close>
  that holds a module but no default module.\<close>

definition exampleTree :: "string \<Rightarrow> bool" where
  "exampleTree path =
     (path \<in> set [''/cli/default.js'', ''/cli/foo.js'', ''/cli/foo'', ''/cli/foo/default.js'',
                  ''/cli/pkg'', ''/cli/pkg/default.js'', ''/cli/sub'', ''/cli/sub/bar.js''])"

lemmas binding_defs =
  load_def initInvocation_def initTables_def registerOption_def emptyTables_def isHelp_def
  consume_def consumeArgument_def consumeToggleOrOption_def consumeOption_def
  markSupplied_def castArgument_def setProperty_def setDefinition_def readDefinition_def
  shadowed_def

lemmas example_defs =
  forceOption_def outputOption_def nameParam_def countParam_def createCommand_def
  buildCommand_def plainCommand_def buildTables_def levelOption_def rawOption_def
  tuneCommand_def shadowOption_def shadowCommand_def protoOption_def protoCommand_def

lemmas coercion_defs =
  castArgument_def toLowerCase_def toLowerChar_def Number_def trim_def isWhiteSpace_def
  unsignedDecimalLiteral_def isDecimalDigit_def exponentPart_def digitValue_def scale10_def
  isNaN_def Boolean_def negate_def integerLiteral_def toDouble_def upperCaseLetters_def
  lowerCaseLetters_def

lemmas resolving_defs =
  resolve_def initResolution_def possiblePaths_def pathJoin_def defaultEntry_def
  validCommandName_def isWordChar_def exampleTree_def

section \<open>Coercion to Boolean\<close>

text \<open>
  Claim C6. A raw token coerced to Boolean gives false exactly when it equals
  \<^verbatim>\<open>"false"\<close> once put in lower case, or when \<^verbatim>\<open>Number\<close> makes it a zero; every other
  token gives true: one that is no number (NaN), and one that is a number other than zero
  (the Boolean cast is false for zero and NaN only). So \<^verbatim>\<open>"false"\<close> in any case gives
  false, \<^verbatim>\<open>"0"\<close> gives false, \<^verbatim>\<open>"2"\<close> gives true and \<^verbatim>\<open>"yes"\<close> gives true; zero may be
  written with white space around it, in another base, with a sign or as a value too
  small for a double, and the empty token is the number zero.
\<close>

theorem castArgument_Boolean:
  "castArgument arg BooleanT = Bool (toLowerCase arg \<noteq> ''false'' \<and> Number arg \<noteq> Finite 0)
   \<and> Boolean NaN = False \<and> Boolean (Infinity s) = True \<and> Boolean (Finite q) = (q \<noteq> 0)
   \<and> castArgument ''false'' BooleanT = Bool False
   \<and> castArgument ''FALSE'' BooleanT = Bool False
   \<and> castArgument ''False'' BooleanT = Bool False
   \<and> castArgument ''0'' BooleanT = Bool False
   \<and> castArgument ''2'' BooleanT = Bool True
   \<and> castArgument ''yes'' BooleanT = Bool True
   \<and> castArgument [] BooleanT = Bool False
   \<and> castArgument '' 0.0 '' BooleanT = Bool False
   \<and> castArgument [CHR 0xA0, CHR ''0''] BooleanT = Bool False
   \<and> castArgument ''-0'' BooleanT = Bool False
   \<and> castArgument ''0x0'' BooleanT = Bool False
   \<and> castArgument ''0x10'' BooleanT = Bool True
   \<and> castArgument ''1e-400'' BooleanT = Bool False
   \<and> castArgument ''-1.5e3'' BooleanT = Bool True
   \<and> castArgument ''Infinity'' BooleanT = Bool True
   \<and> castArgument ''falsey'' BooleanT = Bool True
   \<and> castArgument ''12px'' BooleanT = Bool True"
proof -
  have general:
    "castArgument arg BooleanT = Bool (toLowerCase arg \<noteq> ''false'' \<and> Number arg \<noteq> Finite 0)"
    by (cases "Number arg") (simp_all add: castArgument_def Let_def isNaN_def Boolean_def)
  have casts: "Boolean NaN = False" "Boolean (Infinity s) = True" "Boolean (Finite q) = (q \<noteq> 0)"
    by (simp_all add: Boolean_def)
  have words: "castArgument ''false'' BooleanT = Bool False"
    "castArgument ''FALSE'' BooleanT = Bool False"
    "castArgument ''False'' BooleanT = Bool False"
    "castArgument ''yes'' BooleanT = Bool True"
    "castArgument ''falsey'' BooleanT = Bool True"
    "castArgument ''12px'' BooleanT = Bool True"
    by (simp_all add: coercion_defs)
  have zeros: "castArgument ''0'' BooleanT = Bool False"
    "castArgument [] BooleanT = Bool False"
    "castArgument '' 0.0 '' BooleanT = Bool False"
    "castArgument [CHR 0xA0, CHR ''0''] BooleanT = Bool False"
    "castArgument ''-0'' BooleanT = Bool False"
    "castArgument ''0x0'' BooleanT = Bool False"
    "castArgument ''1e-400'' BooleanT = Bool False"
    by (simp_all add: coercion_defs)
  have others: "castArgument ''2'' BooleanT = Bool True"
    "castArgument ''0x10'' BooleanT = Bool True"
    "castArgument ''-1.5e3'' BooleanT = Bool True"
    "castArgument ''Infinity'' BooleanT = Bool True"
    by (simp_all add: coercion_defs)
  from general casts words zeros others show ?thesis
    by blast
qed

text \<open>The other types: a string as it is, a number by \<^verbatim>\<open>Number\<close>, and undefined for a
  definition without one of the three types.\<close>

lemma castArgument_others:
  "castArgument arg StringT = Str arg"
  "castArgument arg NumberT = Num (Number arg)"
  "castArgument arg OtherT = Undefined"
  "castArgument ''42'' NumberT = Num (Finite 42)"
  "castArgument ''0x1F'' NumberT = Num (Finite 31)"
  "castArgument ''1e309'' NumberT = Num (Infinity True)"
  "castArgument ''-1e309'' NumberT = Num (Infinity False)"
  "castArgument ''abc'' NumberT = Num NaN"
  by (simp_all add: coercion_defs)

section \<open>The empty flag cluster\<close>

text \<open>
  Claim C10. The token \<^verbatim>\<open>-\<close> at the head of the queue is consumed with no effect: it is
  no help request, \<^verbatim>\<open>consumeFlags\<close> runs over no character and throws nothing, the
  invocation (option values, bound parameters, pending parameters, overflow list) is
  what it was, and the loop goes on with the next token.
\<close>

theorem single_hyphen_no_effect:
  "\<not> isHelp ''-''
   \<and> consume st ''-'' queue = Inr (st, queue)
   \<and> bindTokens st (''-'' # queue) = bindTokens st queue"
  by (simp add: isHelp_def consume_def)

section \<open>Flag clusters\<close>

lemma toggleFlag_cong:
  "optionDefinitionMap t' = optionDefinitionMap t \<Longrightarrow>
   definitionPrototype t' = definitionPrototype t \<Longrightarrow>
   flagToNameMapping t' = flagToNameMapping t \<Longrightarrow> toggleFlag t' = toggleFlag t"
  by (rule ext)
    (simp add: toggleFlag_def flagDefinition_def readDefinition_def split: option.splits)

lemma valueFlag_cong:
  "optionDefinitionMap t' = optionDefinitionMap t \<Longrightarrow>
   definitionPrototype t' = definitionPrototype t \<Longrightarrow>
   flagToNameMapping t' = flagToNameMapping t \<Longrightarrow> valueFlag t' = valueFlag t"
  by (rule ext)
    (simp add: valueFlag_def flagDefinition_def readDefinition_def split: option.splits)

lemma knownFlag_cong:
  "optionDefinitionMap t' = optionDefinitionMap t \<Longrightarrow>
   definitionPrototype t' = definitionPrototype t \<Longrightarrow>
   flagToNameMapping t' = flagToNameMapping t \<Longrightarrow> knownFlag t' = knownFlag t"
  by (rule ext)
    (simp add: knownFlag_def flagDefinition_def readDefinition_def split: option.splits)

lemma markSupplied_maps [simp]:
  "optionDefinitionMap (markSupplied name d t) = optionDefinitionMap t"
  "definitionPrototype (markSupplied name d t) = definitionPrototype t"
  "flagToNameMapping (markSupplied name d t) = flagToNameMapping t"
  "commandOptions (markSupplied name d t) = commandOptions t"
  by (simp_all add: markSupplied_def)

lemma markSupplied_required:
  "requiredOptionMap (markSupplied name d t) \<subseteq> requiredOptionMap t"
  by (auto simp: markSupplied_def)

text \<open>What one toggle flag does to the tables.\<close>

lemma toggle_step:
  assumes "\<not> shadowed (flagToNameMapping t)"
    and "flagToNameMapping t [flag] = Some name"
    and "readDefinition t name = Some d"
    and "o_toggle d"
  shows "consumeFlags (flag # flags) (Some t) queue =
           consumeFlags flags
             (Some ((markSupplied name d t)\<lparr>commandOptions :=
                      setProperty (commandOptions t) name (Bool True)\<rparr>))
             queue"
  using assms by (simp add: Let_def)

text \<open>A prefix of toggle flags sets each of its options and hands the rest of the cluster on.\<close>

lemma consumeFlags_toggles:
  "\<not> shadowed (flagToNameMapping t) \<Longrightarrow> list_all (toggleFlag t) pre \<Longrightarrow>
   \<exists>t'. (\<forall>post queue. consumeFlags (pre @ post) (Some t) queue = consumeFlags post (Some t') queue)
       \<and> optionDefinitionMap t' = optionDefinitionMap t
       \<and> definitionPrototype t' = definitionPrototype t
       \<and> flagToNameMapping t' = flagToNameMapping t
       \<and> requiredOptionMap t' \<subseteq> requiredOptionMap t
       \<and> (\<forall>name. commandOptions t' name =
             (if name \<noteq> ''__proto__'' \<and> (\<exists>flag \<in> set pre. flagToNameMapping t [flag] = Some name)
              then Some (Bool True) else commandOptions t name))"
proof (induction pre arbitrary: t)
  case Nil
  then show ?case by auto
next
  case (Cons flag pre)
  from Cons.prems(2) obtain name d where
    name: "flagToNameMapping t [flag] = Some name"
    and d: "readDefinition t name = Some d"
    and toggle: "o_toggle d"
    by (auto simp: toggleFlag_def flagDefinition_def split: option.splits)
  let ?t1 = "(markSupplied name d t)\<lparr>commandOptions :=
               setProperty (commandOptions t) name (Bool True)\<rparr>"
  have same: "optionDefinitionMap ?t1 = optionDefinitionMap t"
    "definitionPrototype ?t1 = definitionPrototype t"
    "flagToNameMapping ?t1 = flagToNameMapping t"
    by simp_all
  have plain: "\<not> shadowed (flagToNameMapping ?t1)"
    using Cons.prems(1) by simp
  have "list_all (toggleFlag ?t1) pre"
    using Cons.prems(2) toggleFlag_cong [OF same] by simp
  from Cons.IH [OF plain this] obtain t' where
    run: "\<forall>post queue. consumeFlags (pre @ post) (Some ?t1) queue = consumeFlags post (Some t') queue"
    and maps: "optionDefinitionMap t' = optionDefinitionMap ?t1"
      "definitionPrototype t' = definitionPrototype ?t1"
      "flagToNameMapping t' = flagToNameMapping ?t1"
    and req: "requiredOptionMap t' \<subseteq> requiredOptionMap ?t1"
    and opts: "\<forall>n. commandOptions t' n =
             (if n \<noteq> ''__proto__'' \<and> (\<exists>flag \<in> set pre. flagToNameMapping ?t1 [flag] = Some n)
              then Some (Bool True) else commandOptions ?t1 n)"
    by blast
  have step: "consumeFlags ((flag # pre) @ post) (Some t) queue = consumeFlags post (Some t') queue"
    for post queue
    using toggle_step [where flags = "pre @ post" and queue = queue,
        OF Cons.prems(1) name d toggle] run by simp
  have req': "requiredOptionMap t' \<subseteq> requiredOptionMap t"
    using req markSupplied_required [of name d t] by auto
  have opts': "commandOptions t' n =
             (if n \<noteq> ''__proto__'' \<and> (\<exists>flag \<in> set (flag # pre). flagToNameMapping t [flag] = Some n)
              then Some (Bool True) else commandOptions t n)" for n
    using opts name by (auto simp: setProperty_def)
  show ?case
    apply (rule exI [of _ t'])
    using step maps same req' opts'
    by simp
qed

text \<open>A flag without a name, or a value option before the end of the cluster, makes the
  cluster fail, whatever comes before it.\<close>

lemma consumeFlags_error:
  "flagToNameMapping t [flag] = None \<or> (valueFlag t flag \<and> post \<noteq> []) \<Longrightarrow>
   \<exists>e. consumeFlags (pre @ flag # post) (Some t) queue = Inl e"
proof (induction pre arbitrary: t)
  case Nil
  then show ?case
    by (auto simp: valueFlag_def flagDefinition_def Let_def split: option.splits)
next
  case (Cons c pre)
  show ?case
  proof (cases "\<not> shadowed (flagToNameMapping t) \<and> toggleFlag t c")
    case True
    then obtain name d where
      name: "flagToNameMapping t [c] = Some name"
      and d: "readDefinition t name = Some d"
      and toggle: "o_toggle d"
      by (auto simp: toggleFlag_def flagDefinition_def split: option.splits)
    let ?t1 = "(markSupplied name d t)\<lparr>commandOptions :=
               setProperty (commandOptions t) name (Bool True)\<rparr>"
    have same: "optionDefinitionMap ?t1 = optionDefinitionMap t"
      "definitionPrototype ?t1 = definitionPrototype t"
      "flagToNameMapping ?t1 = flagToNameMapping t"
      by simp_all
    have "flagToNameMapping ?t1 [flag] = None \<or> (valueFlag ?t1 flag \<and> post \<noteq> [])"
      using Cons.prems valueFlag_cong [OF same] by simp
    from Cons.IH [OF this] True
      toggle_step [where flags = "pre @ flag # post" and queue = queue, OF _ name d toggle]
    show ?thesis by simp
  next
    case False
    then show ?thesis
      by (auto simp: toggleFlag_def flagDefinition_def Let_def split: option.splits)
  qed
qed

text \<open>Behind known flags, the first value option before the end of the cluster is what the
  cluster fails on.\<close>

lemma consumeFlags_nonterminal:
  "\<not> shadowed (flagToNameMapping t) \<Longrightarrow> list_all (knownFlag t) pre \<Longrightarrow>
   valueFlag t flag \<Longrightarrow> post \<noteq> [] \<Longrightarrow>
   consumeFlags (pre @ flag # post) (Some t) queue = Inl NonTerminalFlagTakesValue"
proof (induction pre arbitrary: t)
  case Nil
  then show ?case
    by (auto simp: valueFlag_def flagDefinition_def Let_def split: option.splits)
next
  case (Cons c pre)
  from Cons.prems(2) obtain name d where
    name: "flagToNameMapping t [c] = Some name"
    and d: "readDefinition t name = Some d"
    by (auto simp: knownFlag_def flagDefinition_def split: option.splits)
  show ?case
  proof (cases "o_toggle d")
    case True
    let ?t1 = "(markSupplied name d t)\<lparr>commandOptions :=
               setProperty (commandOptions t) name (Bool True)\<rparr>"
    have same: "optionDefinitionMap ?t1 = optionDefinitionMap t"
      "definitionPrototype ?t1 = definitionPrototype t"
      "flagToNameMapping ?t1 = flagToNameMapping t"
      by simp_all
    have "consumeFlags (pre @ flag # post) (Some ?t1) queue = Inl NonTerminalFlagTakesValue"
      using Cons.prems knownFlag_cong [OF same] valueFlag_cong [OF same]
      by (intro Cons.IH) simp_all
    with toggle_step [where flags = "pre @ flag # post" and queue = queue,
        OF Cons.prems(1) name d True]
    show ?thesis by simp
  next
    case False
    with Cons.prems(1) name d show ?thesis
      by (simp add: Let_def)
  qed
qed

text \<open>
  Claim C4, as the code has it, for tables in which no flag is named \<^verbatim>\<open>hasOwnProperty\<close>.
  A flag-cluster token \<^verbatim>\<open>-c1...cn\<close> (not a help token, no second hyphen) is handed to
  \<^verbatim>\<open>consumeFlags\<close>. When every character maps to a toggle, each referenced option (with a
  name other than \<^verbatim>\<open>__proto__\<close>) becomes true and the queue is left as it was. When the
  last character maps to a value option and the ones before it to toggles, exactly the
  next token is taken as its value and stored after coercion; with no next token, or one
  that starts with \<^verbatim>\<open>-\<close>, the parse fails. The characters are looked at from left to
  right: a value option at a position that is not the last makes the parse fail, with
  \<^verbatim>\<open>NonTerminalFlagTakesValue\<close> when every character before it maps to a known flag; a
  character that maps to no flag makes the parse fail, with \<^verbatim>\<open>UnknownOptionFlag\<close> when the
  characters before it are toggles, and always when no option tables exist.
\<close>

theorem flag_cluster:
  "(\<not> isHelp (CHR ''-'' # flags) \<and> take 1 flags \<noteq> ''-'' \<longrightarrow>
      bindTokens st ((CHR ''-'' # flags) # queue) =
        (case consumeFlags flags (optionTables st) queue of
           Inl e \<Rightarrow> Thrown e
         | Inr (ot, queue') \<Rightarrow> bindTokens (st\<lparr>optionTables := ot\<rparr>) queue'))
   \<and> (\<not> shadowed (flagToNameMapping t) \<and> list_all (toggleFlag t) flags \<longrightarrow>
        (\<exists>t'. consumeFlags flags (Some t) queue = Inr (Some t', queue)
            \<and> (\<forall>flag \<in> set flags. \<forall>name.
                  flagToNameMapping t [flag] = Some name \<and> name \<noteq> ''__proto__'' \<longrightarrow>
                  commandOptions t' name = Some (Bool True))))
   \<and> (\<not> shadowed (flagToNameMapping t) \<and> list_all (toggleFlag t) pre
        \<and> flagToNameMapping t [flag] = Some name \<and> name \<noteq> ''__proto__''
        \<and> readDefinition t name = Some d \<and> \<not> o_toggle d \<longrightarrow>
        (case queue of
           [] \<Rightarrow> consumeFlags (pre @ [flag]) (Some t) queue = Inl (MissingOptionValue name)
         | v # rest \<Rightarrow>
             if take 1 v = ''-''
             then consumeFlags (pre @ [flag]) (Some t) queue
                    = Inl (OptionValueLooksLikeOption v name)
             else (\<exists>t'. consumeFlags (pre @ [flag]) (Some t) queue = Inr (Some t', rest)
                     \<and> commandOptions t' name = Some (castArgument v (o_type d)))))
   \<and> (valueFlag t flag \<and> post \<noteq> [] \<longrightarrow>
        (\<exists>e. consumeFlags (pre @ flag # post) (Some t) queue = Inl e)
        \<and> (\<not> shadowed (flagToNameMapping t) \<and> list_all (knownFlag t) pre \<longrightarrow>
             consumeFlags (pre @ flag # post) (Some t) queue = Inl NonTerminalFlagTakesValue))
   \<and> (flagToNameMapping t [flag] = None \<longrightarrow>
        (\<exists>e. consumeFlags (pre @ flag # post) (Some t) queue = Inl e)
        \<and> (\<not> shadowed (flagToNameMapping t) \<and> list_all (toggleFlag t) pre \<longrightarrow>
             consumeFlags (pre @ flag # post) (Some t) queue = Inl (UnknownOptionFlag flag)))
   \<and> consumeFlags (flag # post) None queue = Inl (UnknownOptionFlag flag)"
proof (intro conjI impI)
  assume "\<not> isHelp (CHR ''-'' # flags) \<and> take 1 flags \<noteq> ''-''"
  then show "bindTokens st ((CHR ''-'' # flags) # queue) =
        (case consumeFlags flags (optionTables st) queue of
           Inl e \<Rightarrow> Thrown e
         | Inr (ot, queue') \<Rightarrow> bindTokens (st\<lparr>optionTables := ot\<rparr>) queue')"
    by (simp add: consume_def split: sum.splits)
next
  assume a: "\<not> shadowed (flagToNameMapping t) \<and> list_all (toggleFlag t) flags"
  then have "\<not> shadowed (flagToNameMapping t)" "list_all (toggleFlag t) flags"
    by simp_all
  from consumeFlags_toggles [OF this] obtain t' where
    run: "\<forall>post queue. consumeFlags (flags @ post) (Some t) queue = consumeFlags post (Some t') queue"
    and opts: "\<forall>name. commandOptions t' name =
             (if name \<noteq> ''__proto__'' \<and> (\<exists>flag \<in> set flags. flagToNameMapping t [flag] = Some name)
              then Some (Bool True) else commandOptions t name)"
    by blast
  from run [rule_format, of "[]" queue]
  have "consumeFlags flags (Some t) queue = Inr (Some t', queue)"
    by simp
  with opts show "\<exists>t'. consumeFlags flags (Some t) queue = Inr (Some t', queue)
            \<and> (\<forall>flag \<in> set flags. \<forall>name.
                  flagToNameMapping t [flag] = Some name \<and> name \<noteq> ''__proto__'' \<longrightarrow>
                  commandOptions t' name = Some (Bool True))"
    by (intro exI [of _ t']) auto
next
  assume a: "\<not> shadowed (flagToNameMapping t) \<and> list_all (toggleFlag t) pre
        \<and> flagToNameMapping t [flag] = Some name \<and> name \<noteq> ''__proto__''
        \<and> readDefinition t name = Some d \<and> \<not> o_toggle d"
  then have "\<not> shadowed (flagToNameMapping t)" "list_all (toggleFlag t) pre"
    by simp_all
  from consumeFlags_toggles [OF this] obtain t' where
    run: "\<forall>post queue. consumeFlags (pre @ post) (Some t) queue = consumeFlags post (Some t') queue"
    and maps: "optionDefinitionMap t' = optionDefinitionMap t"
      "definitionPrototype t' = definitionPrototype t"
      "flagToNameMapping t' = flagToNameMapping t"
    by blast
  from a have facts: "flagToNameMapping t [flag] = Some name" "name \<noteq> ''__proto__''"
    "readDefinition t name = Some d" "\<not> o_toggle d"
    by simp_all
  have "readDefinition t' name = readDefinition t name"
    by (simp add: readDefinition_def maps)
  with facts maps \<open>\<not> shadowed (flagToNameMapping t)\<close>
  have d': "readDefinition t' name = Some d" "\<not> shadowed (flagToNameMapping t')"
    "flagToNameMapping t' [flag] = Some name"
    by simp_all
  show "case queue of
           [] \<Rightarrow> consumeFlags (pre @ [flag]) (Some t) queue = Inl (MissingOptionValue name)
         | v # rest \<Rightarrow>
             if take 1 v = ''-''
             then consumeFlags (pre @ [flag]) (Some t) queue
                    = Inl (OptionValueLooksLikeOption v name)
             else (\<exists>t'. consumeFlags (pre @ [flag]) (Some t) queue = Inr (Some t', rest)
                     \<and> commandOptions t' name = Some (castArgument v (o_type d)))"
    using facts d'
    by (simp add: run consumeOption_def setProperty_def Let_def split: list.splits)
next
  assume "valueFlag t flag \<and> post \<noteq> []"
  then show "\<exists>e. consumeFlags (pre @ flag # post) (Some t) queue = Inl e"
    using consumeFlags_error [of t flag post pre queue] by simp
next
  assume "valueFlag t flag \<and> post \<noteq> []"
    and "\<not> shadowed (flagToNameMapping t) \<and> list_all (knownFlag t) pre"
  then show "consumeFlags (pre @ flag # post) (Some t) queue = Inl NonTerminalFlagTakesValue"
    using consumeFlags_nonterminal [of t pre flag post queue] by simp
next
  assume "flagToNameMapping t [flag] = None"
  then show "\<exists>e. consumeFlags (pre @ flag # post) (Some t) queue = Inl e"
    using consumeFlags_error [of t flag post pre queue] by simp
next
  assume a: "flagToNameMapping t [flag] = None"
    and "\<not> shadowed (flagToNameMapping t) \<and> list_all (toggleFlag t) pre"
  then have "\<not> shadowed (flagToNameMapping t)" "list_all (toggleFlag t) pre"
    by simp_all
  from consumeFlags_toggles [OF this] obtain t' where
    run: "\<forall>post queue. consumeFlags (pre @ post) (Some t) queue = consumeFlags post (Some t') queue"
    and maps: "flagToNameMapping t' = flagToNameMapping t"
    by blast
  with a \<open>\<not> shadowed (flagToNameMapping t)\<close>
  show "consumeFlags (pre @ flag # post) (Some t) queue = Inl (UnknownOptionFlag flag)"
    by (simp add: run)
next
  show "consumeFlags (flag # post) None queue = Inl (UnknownOptionFlag flag)"
    by simp
qed

theorem flag_cluster_witness:
  "\<not> shadowed (flagToNameMapping buildTables)
   \<and> list_all (toggleFlag buildTables) ''ff''
   \<and> (\<exists>t'. consumeFlags ''ff'' (Some buildTables) [''x''] = Inr (Some t', [''x''])
          \<and> commandOptions t' ''force'' = Some (Bool True))
   \<and> (\<exists>t'. consumeFlags ''fo'' (Some buildTables) [''a.txt'', ''x''] = Inr (Some t', [''x''])
          \<and> commandOptions t' ''output'' = Some (Str ''a.txt''))
   \<and> valueFlag buildTables CHR ''o'' \<and> list_all (knownFlag buildTables) ''fo''
   \<and> consumeFlags ''foof'' (Some buildTables) [''a.txt''] = Inl NonTerminalFlagTakesValue
   \<and> flagToNameMapping buildTables ''x'' = None
   \<and> consumeFlags ''fx'' (Some buildTables) [] = Inl (UnknownOptionFlag CHR ''x'')"
proof -
  have plain: "\<not> shadowed (flagToNameMapping buildTables)"
    by (simp add: binding_defs example_defs)
  have toggles: "list_all (toggleFlag buildTables) ''ff''" "list_all (toggleFlag buildTables) ''f''"
    by (simp_all add: toggleFlag_def flagDefinition_def binding_defs example_defs)
  have known: "list_all (knownFlag buildTables) ''fo''"
    by (simp add: knownFlag_def flagDefinition_def binding_defs example_defs)
  have outp: "flagToNameMapping buildTables ''o'' = Some ''output''"
    "readDefinition buildTables ''output'' = Some outputOption"
    "\<not> o_toggle outputOption" "valueFlag buildTables CHR ''o''"
    by (simp_all add: valueFlag_def flagDefinition_def binding_defs example_defs)
  have unknown: "flagToNameMapping buildTables ''x'' = None"
    by (simp add: binding_defs example_defs)
  have force: "flagToNameMapping buildTables ''f'' = Some ''force''"
    by (simp add: binding_defs example_defs)
  have a: "\<exists>t'. consumeFlags ''ff'' (Some buildTables) [''x''] = Inr (Some t', [''x''])
          \<and> commandOptions t' ''force'' = Some (Bool True)"
    using flag_cluster [where t = buildTables and flags = "''ff''" and queue = "[''x'']"]
      plain toggles force by fastforce
  have b: "\<exists>t'. consumeFlags ''fo'' (Some buildTables) [''a.txt'', ''x''] = Inr (Some t', [''x''])
          \<and> commandOptions t' ''output'' = Some (Str ''a.txt'')"
    using flag_cluster [where t = buildTables and pre = "''f''" and flag = "CHR ''o''"
        and name = "''output''" and d = outputOption and queue = "[''a.txt'', ''x'']"]
      plain toggles outp by (simp add: castArgument_def outputOption_def)
  have c: "consumeFlags ''foof'' (Some buildTables) [''a.txt''] = Inl NonTerminalFlagTakesValue"
    using flag_cluster [where t = buildTables and pre = "''fo''" and flag = "CHR ''o''"
        and post = "''f''" and queue = "[''a.txt'']"]
      plain known outp by simp
  have d: "consumeFlags ''fx'' (Some buildTables) [] = Inl (UnknownOptionFlag CHR ''x'')"
    using flag_cluster [where t = buildTables and pre = "''f''" and flag = "CHR ''x''"
        and post = "[]" and queue = "[]"]
      plain toggles unknown by simp
  from plain toggles(1) a b outp(4) known c unknown d show ?thesis
    by blast
qed

text \<open>
  Claim C4 as stated fails where it names the error of a value option before the end of
  the cluster: in \<^verbatim>\<open>-xof\<close> the flag \<^verbatim>\<open>o\<close> of a value option is not the last, and the parse
  fails on the unknown flag \<^verbatim>\<open>x\<close> before it, with \<^verbatim>\<open>UnknownOptionFlag\<close>.
\<close>

theorem flag_cluster_order_counterexample:
  "valueFlag buildTables CHR ''o''
   \<and> consumeFlags ''xof'' (Some buildTables) [''a.txt''] = Inl (UnknownOptionFlag CHR ''x'')
   \<and> load buildCommand [''cli''] [''n'', ''-xof'', ''a.txt''] ''/home''
       = Failure (UnknownOptionFlag CHR ''x'')"
  by (simp add: valueFlag_def flagDefinition_def binding_defs example_defs)

text \<open>The names left out above: a toggle named \<^verbatim>\<open>__proto__\<close> is found through its flag, and
  the assignment of \<^verbatim>\<open>true\<close> to it is ignored; the options record stays empty.\<close>

lemma proto_toggle_not_stored:
  "load protoCommand [''cli''] [''-p''] ''/home''
     = Execute [] (Some Map.empty) \<lparr>cwd = ''/home'', args = [], commands = [''cli'']\<rparr>"
  by (simp add: binding_defs example_defs)

section \<open>Long options\<close>

text \<open>
  Claim C3, for the tables of a command none of whose options is named \<^verbatim>\<open>hasOwnProperty\<close>
  and a name other than \<^verbatim>\<open>__proto__\<close>. A pass of the loop on a token \<^verbatim>\<open>--name\<close> (one that
  is not the help token): a name without an option definition makes the parse fail with
  \<^verbatim>\<open>UnknownOption\<close>; a toggle becomes true and the queue is left as it was; a value option
  takes exactly the next token, failing with \<^verbatim>\<open>MissingOptionValue\<close> when there is none and
  with \<^verbatim>\<open>OptionValueLooksLikeOption\<close> when it starts with \<^verbatim>\<open>-\<close>, and otherwise stores the
  token coerced to the option's declared type: the token itself for \<^verbatim>\<open>String\<close>,
  \<^verbatim>\<open>Number(token)\<close> for \<^verbatim>\<open>Number\<close>, and undefined for a type that is none of the three.
\<close>

theorem long_option:
  assumes "\<not> isHelp (''--'' @ name)"
    and "optionTables st = Some t"
    and "\<not> shadowed (optionDefinitionMap t)"
    and "name \<noteq> ''__proto__''"
  shows "bindTokens st ((''--'' @ name) # queue) =
     (case optionDefinitionMap t name of
        None \<Rightarrow> Thrown (UnknownOption name)
      | Some d \<Rightarrow>
          if o_toggle d
          then bindTokens
                 (st\<lparr>optionTables :=
                      Some ((markSupplied name d t)
                              \<lparr>commandOptions := (commandOptions t)(name \<mapsto> Bool True)\<rparr>)\<rparr>)
                 queue
          else (case queue of
                  [] \<Rightarrow> Thrown (MissingOptionValue name)
                | v # rest \<Rightarrow>
                    if take 1 v = ''-'' then Thrown (OptionValueLooksLikeOption v name)
                    else bindTokens
                           (st\<lparr>optionTables :=
                                Some ((markSupplied name d t)
                                        \<lparr>commandOptions :=
                                           (commandOptions t)
                                             (name \<mapsto> castArgument v (o_type d))\<rparr>)\<rparr>)
                           rest))
     \<and> castArgument v StringT = Str v
     \<and> castArgument v NumberT = Num (Number v)
     \<and> castArgument v OtherT = Undefined"
  using assms
  by (simp add: consume_def consumeToggleOrOption_def consumeOption_def markSupplied_def
      setProperty_def castArgument_def Let_def split: option.splits list.splits)

theorem long_option_witness:
  "\<not> isHelp (''--'' @ ''level'')
   \<and> optionTables (initInvocation tuneCommand)
       = Some (fold registerOption [forceOption, levelOption, rawOption] emptyTables)
   \<and> \<not> shadowed (optionDefinitionMap
                    (fold registerOption [forceOption, levelOption, rawOption] emptyTables))
   \<and> load tuneCommand [''cli''] [''--level'', ''0x1F'', ''--raw'', ''x'', ''--force''] ''/home''
       = Execute [Undefined, Num (Finite 1)]
           (Some [''force'' \<mapsto> Bool True, ''level'' \<mapsto> Num (Finite 31),
                  ''raw'' \<mapsto> Undefined])
           \<lparr>cwd = ''/home'', args = [], commands = [''cli'']\<rparr>
   \<and> load tuneCommand [''cli''] [''--level'', ''1.5e3''] ''/home''
       = Execute [Undefined, Num (Finite 1)]
           (Some [''force'' \<mapsto> Bool False, ''level'' \<mapsto> Num (Finite 1500),
                  ''raw'' \<mapsto> Str ''none''])
           \<lparr>cwd = ''/home'', args = [], commands = [''cli'']\<rparr>
   \<and> load tuneCommand [''cli''] [''--level'', ''high''] ''/home''
       = Execute [Undefined, Num (Finite 1)]
           (Some [''force'' \<mapsto> Bool False, ''level'' \<mapsto> Num NaN, ''raw'' \<mapsto> Str ''none''])
           \<lparr>cwd = ''/home'', args = [], commands = [''cli'']\<rparr>
   \<and> load buildCommand [''cli''] [''x'', ''--output'', ''a.txt'', ''--force''] ''/home''
       = Execute [Str ''x'', Num (Finite 1)]
           (Some [''force'' \<mapsto> Bool True, ''output'' \<mapsto> Str ''a.txt''])
           \<lparr>cwd = ''/home'', args = [], commands = [''cli'']\<rparr>
   \<and> load buildCommand [''cli''] [''x'', ''--output''] ''/home''
       = Failure (MissingOptionValue ''output'')
   \<and> load buildCommand [''cli''] [''--output'', ''--force''] ''/home''
       = Failure (OptionValueLooksLikeOption ''--force'' ''output'')
   \<and> load buildCommand [''cli''] [''--colour''] ''/home'' = Failure (UnknownOption ''colour'')"
proof -
  let ?t = "fold registerOption [forceOption, levelOption, rawOption] emptyTables"
  have nohelp: "\<not> isHelp (''--'' @ ''level'')"
    by (simp add: isHelp_def)
  have tabs: "optionTables (initInvocation tuneCommand) = Some ?t"
    by (simp add: initInvocation_def initTables_def tuneCommand_def)
  have plain: "\<not> shadowed (optionDefinitionMap ?t)"
    by (simp add: binding_defs example_defs)
  have name: "''level'' \<noteq> ''__proto__''"
    by simp
  note step = long_option [OF nohelp tabs plain name]
  have a: "load tuneCommand [''cli''] [''--level'', ''0x1F'', ''--raw'', ''x'', ''--force''] ''/home''
       = Execute [Undefined, Num (Finite 1)]
           (Some [''force'' \<mapsto> Bool True, ''level'' \<mapsto> Num (Finite 31),
                  ''raw'' \<mapsto> Undefined])
           \<lparr>cwd = ''/home'', args = [], commands = [''cli'']\<rparr>"
    using step [of "[''0x1F'', ''--raw'', ''x'', ''--force'']"]
    by (simp add: binding_defs example_defs coercion_defs fun_upd_twist)
  have b: "load tuneCommand [''cli''] [''--level'', ''1.5e3''] ''/home''
       = Execute [Undefined, Num (Finite 1)]
           (Some [''force'' \<mapsto> Bool False, ''level'' \<mapsto> Num (Finite 1500),
                  ''raw'' \<mapsto> Str ''none''])
           \<lparr>cwd = ''/home'', args = [], commands = [''cli'']\<rparr>"
    using step [of "[''1.5e3'']"]
    by (simp add: binding_defs example_defs coercion_defs fun_upd_twist)
  have c: "load tuneCommand [''cli''] [''--level'', ''high''] ''/home''
       = Execute [Undefined, Num (Finite 1)]
           (Some [''force'' \<mapsto> Bool False, ''level'' \<mapsto> Num NaN, ''raw'' \<mapsto> Str ''none''])
           \<lparr>cwd = ''/home'', args = [], commands = [''cli'']\<rparr>"
    using step [of "[''high'']"]
    by (simp add: binding_defs example_defs coercion_defs fun_upd_twist)
  have d: "load buildCommand [''cli''] [''x'', ''--output'', ''a.txt'', ''--force''] ''/home''
       = Execute [Str ''x'', Num (Finite 1)]
           (Some [''force'' \<mapsto> Bool True, ''output'' \<mapsto> Str ''a.txt''])
           \<lparr>cwd = ''/home'', args = [], commands = [''cli'']\<rparr>"
    "load buildCommand [''cli''] [''x'', ''--output''] ''/home''
       = Failure (MissingOptionValue ''output'')"
    "load buildCommand [''cli''] [''--output'', ''--force''] ''/home''
       = Failure (OptionValueLooksLikeOption ''--force'' ''output'')"
    "load buildCommand [''cli''] [''--colour''] ''/home'' = Failure (UnknownOption ''colour'')"
    by (simp_all add: binding_defs example_defs coercion_defs fun_upd_twist)
  from nohelp tabs plain a b c d show ?thesis
    by blast
qed

text \<open>A command without option definitions has no tables: the call
  \<^verbatim>\<open>optionDefinitionMap.hasOwnProperty(name)\<close> on \<^verbatim>\<open>undefined\<close> throws a type error.\<close>

lemma long_option_no_tables:
  "load \<lparr>optionDefinitions = None, paramDefinitions = [], requiredParamsNumber = 0\<rparr>
     [''cli''] [''--colour''] ''/home'' = Failure TypeError"
  by (simp add: binding_defs)

text \<open>
  Claim C3 fails on the code for a command that has an option named \<^verbatim>\<open>hasOwnProperty\<close>:
  the definition becomes an own property of \<^verbatim>\<open>optionDefinitionMap\<close> and hides the method,
  so \<^verbatim>\<open>optionDefinitionMap.hasOwnProperty(name)\<close> throws a type error for every long
  option, also for a toggle that has a definition, whose value the claim has become true.
  An option named \<^verbatim>\<open>__proto__\<close> never becomes an own property: its own long name is
  reported as unknown.
\<close>

theorem long_option_shadowed:
  "optionDefinitions shadowCommand = Some [forceOption, shadowOption]
   \<and> o_name forceOption = ''force'' \<and> o_toggle forceOption
   \<and> \<not> isHelp ''--force''
   \<and> load shadowCommand [''cli''] [''--force''] ''/home'' = Failure TypeError
   \<and> optionDefinitions protoCommand = Some [protoOption]
   \<and> o_name protoOption = ''__proto__'' \<and> o_toggle protoOption
   \<and> load protoCommand [''cli''] [''--__proto__''] ''/home''
       = Failure (UnknownOption ''__proto__'')"
  by (simp add: binding_defs example_defs)

section \<open>The positional count\<close>

text \<open>
  Claim C7. When the token queue is exhausted without help and without error and fewer
  positional arguments are bound than the command's required-parameter count, \<^verbatim>\<open>load\<close>
  fails with the count mismatch, and \<^verbatim>\<open>execute\<close> is not invoked.
\<close>

theorem insufficient_positional_arguments:
  assumes "bindTokens (initInvocation command) queue = Bound st"
    and "length (commandArgs st) < requiredParamsNumber command"
  shows "load command sequence queue dir =
           Failure (InsufficientPositionalArguments (requiredParamsNumber command)
                      (length (commandArgs st)))
         \<and> (\<forall>values options context.
               load command sequence queue dir \<noteq> Execute values options context)"
  using assms by (simp add: load_def)

theorem insufficient_positional_arguments_witness:
  "load createCommand [''cli'', ''create''] [''-f''] ''/home''
     = Failure (InsufficientPositionalArguments 1 0)"
proof -
  let ?t = "\<lparr>commandOptions = [''force'' \<mapsto> Bool True],
             optionDefinitionMap = [''force'' \<mapsto> forceOption],
             definitionPrototype = None,
             requiredOptionMap = {}, flagToNameMapping = [''f'' \<mapsto> ''force'']\<rparr>"
  let ?st = "\<lparr>commandArgs = [], commandExtraArgs = [], optionTables = Some ?t,
              pendingParamDefinitions = [nameParam]\<rparr>"
  have run: "bindTokens (initInvocation createCommand) [''-f''] = Bound ?st"
    by (simp add: binding_defs example_defs)
  have few: "length (commandArgs ?st) < requiredParamsNumber createCommand"
    by (simp add: createCommand_def)
  from insufficient_positional_arguments [OF run few, of "[''cli'', ''create'']" "''/home''"]
  show ?thesis by (simp add: createCommand_def)
qed

section \<open>Leaf module before default module\<close>

text \<open>
  Claim C8. At every step of the resolution, for a token that is a command name, the leaf
  module \<^verbatim>\<open>path.js\<close> is probed first and the default module of the subdirectory second,
  and the first of the two that exists is taken: with the leaf module the walk goes on
  from it whatever else exists, without it and with the default module the walk goes on
  from the default module. So with both a leaf module \<^verbatim>\<open>foo\<close> and a directory \<^verbatim>\<open>foo/\<close>
  holding a default module the token \<^verbatim>\<open>foo\<close> resolves to the leaf module; a lone token
  with neither module is not resolved.
\<close>

theorem leaf_module_first:
  assumes valid: "validCommandName arg"
  shows "(existsSync (pathJoin (searchPath r) arg @ ''.js'') \<longrightarrow>
            walk existsSync i r (arg # rest) =
              walk existsSync (i + 1)
                (r\<lparr>searchPath := pathJoin (searchPath r) arg,
                   filename := pathJoin (searchPath r) arg @ ''.js'',
                   argsIndex := i + 1,
                   commandSequence := commandSequence r @ [arg]\<rparr>)
                rest)
         \<and> (\<not> existsSync (pathJoin (searchPath r) arg @ ''.js'')
            \<and> existsSync (pathJoin (pathJoin (searchPath r) arg) ''default.js'') \<longrightarrow>
            walk existsSync i r (arg # rest) =
              walk existsSync (i + 1)
                (r\<lparr>searchPath := pathJoin (searchPath r) arg,
                   filename := pathJoin (pathJoin (searchPath r) arg) ''default.js'',
                   argsIndex := i + 1,
                   commandSequence := commandSequence r @ [arg]\<rparr>)
                rest)
         \<and> resolve existsSync rootDir entry [node, script, arg] =
             (if existsSync (pathJoin rootDir arg @ ''.js'')
              then (pathJoin rootDir arg @ ''.js'', [entry, arg], [])
              else if existsSync (pathJoin (pathJoin rootDir arg) ''default.js'')
                   then (pathJoin (pathJoin rootDir arg) ''default.js'', [entry, arg], [])
                   else (pathJoin rootDir ''default.js'', [entry], [arg]))"
  using valid
  by (simp add: possiblePaths_def defaultEntry_def resolve_def initResolution_def Let_def)

theorem leaf_module_first_witness:
  "validCommandName ''foo'' \<and> exampleTree ''/cli/foo.js'' \<and> exampleTree ''/cli/foo/default.js''
   \<and> resolve exampleTree ''/cli'' ''cli'' [''node'', ''cli'', ''foo'']
       = (''/cli/foo.js'', [''cli'', ''foo''], [])
   \<and> validCommandName ''pkg'' \<and> \<not> exampleTree ''/cli/pkg.js''
   \<and> exampleTree ''/cli/pkg/default.js''
   \<and> resolve exampleTree ''/cli'' ''cli'' [''node'', ''cli'', ''pkg'']
       = (''/cli/pkg/default.js'', [''cli'', ''pkg''], [])
   \<and> walk exampleTree 2 (initResolution ''/cli'' ''cli'') [''pkg'', ''--x'']
       = \<lparr>searchPath = ''/cli/pkg'', filename = ''/cli/pkg/default.js'', argsIndex = 3,
          commandSequence = [''cli'', ''pkg'']\<rparr>
   \<and> resolve exampleTree ''/cli'' ''cli'' [''node'', ''cli'', ''nothing'']
       = (''/cli/default.js'', [''cli''], [''nothing''])"
proof -
  have valid: "validCommandName ''foo''" "validCommandName ''pkg''" "validCommandName ''nothing''"
    by (simp_all add: validCommandName_def isWordChar_def)
  have tree: "exampleTree ''/cli/foo.js''" "exampleTree ''/cli/foo/default.js''"
    "\<not> exampleTree ''/cli/pkg.js''" "exampleTree ''/cli/pkg/default.js''"
    "\<not> exampleTree ''/cli/nothing.js''" "\<not> exampleTree ''/cli/nothing/default.js''"
    by (simp_all add: exampleTree_def)
  note foo = leaf_module_first [OF valid(1), where existsSync = exampleTree
      and rootDir = "''/cli''" and entry = "''cli''" and node = "''node''" and script = "''cli''"]
  note pkg = leaf_module_first [OF valid(2), where existsSync = exampleTree
      and rootDir = "''/cli''" and entry = "''cli''" and node = "''node''" and script = "''cli''"
      and r = "initResolution ''/cli'' ''cli''" and i = 2 and rest = "[''--x'']"]
  note lone = leaf_module_first [OF valid(3), where existsSync = exampleTree
      and rootDir = "''/cli''" and entry = "''cli''" and node = "''node''" and script = "''cli''"]
  have a: "resolve exampleTree ''/cli'' ''cli'' [''node'', ''cli'', ''foo'']
       = (''/cli/foo.js'', [''cli'', ''foo''], [])"
    using foo tree by (simp add: pathJoin_def)
  have b: "resolve exampleTree ''/cli'' ''cli'' [''node'', ''cli'', ''pkg'']
       = (''/cli/pkg/default.js'', [''cli'', ''pkg''], [])"
    using pkg tree by (simp add: pathJoin_def)
  have c: "walk exampleTree 2 (initResolution ''/cli'' ''cli'') [''pkg'', ''--x'']
       = \<lparr>searchPath = ''/cli/pkg'', filename = ''/cli/pkg/default.js'', argsIndex = 3,
          commandSequence = [''cli'', ''pkg'']\<rparr>"
    using pkg tree
    by (simp add: pathJoin_def initResolution_def defaultEntry_def validCommandName_def
        isWordChar_def)
  have d: "resolve exampleTree ''/cli'' ''cli'' [''node'', ''cli'', ''nothing'']
       = (''/cli/default.js'', [''cli''], [''nothing''])"
    using lone tree by (simp add: pathJoin_def)
  from valid tree a b c d show ?thesis by blast
qed

section \<open>Successful steps of the loop\<close>

text \<open>What a successful call tells about the tables and the queue: the definitions stay,
  at most the next token is taken, as a value that does not start with a hyphen, and the
  supplied names leave the pending required names.\<close>

lemma consumeOption_success:
  assumes "consumeOption name d t queue = Inr (t', queue')"
  shows "queue \<noteq> [] \<and> take 1 (hd queue) \<noteq> ''-'' \<and> queue' = tl queue
       \<and> t' = t\<lparr>commandOptions :=
                  setProperty (commandOptions t) name (castArgument (hd queue) (o_type d))\<rparr>"
  using assms by (auto simp: consumeOption_def split: list.splits if_splits)

lemma markSupplied_minus:
  assumes "requiredConsistent t"
    and "name = ''__proto__'' \<or> optionDefinitionMap t name = Some d"
  shows "requiredOptionMap (markSupplied name d t) = requiredOptionMap t - {name}"
  using assms by (auto simp: markSupplied_def requiredConsistent_def)

lemma requiredConsistent_minus:
  assumes "requiredConsistent t"
    and "optionDefinitionMap t' = optionDefinitionMap t"
    and "requiredOptionMap t' = requiredOptionMap t - names"
  shows "requiredConsistent t'"
  using assms by (auto simp: requiredConsistent_def)

lemma consumeToggleOrOption_success:
  assumes run: "consumeToggleOrOption name ot queue = Inr (ot', queue')"
  shows "\<exists>t t' d. ot = Some t \<and> ot' = Some t' \<and> optionDefinitionMap t name = Some d
       \<and> optionDefinitionMap t' = optionDefinitionMap t
       \<and> definitionPrototype t' = definitionPrototype t
       \<and> flagToNameMapping t' = flagToNameMapping t
       \<and> queue' = (if o_toggle d then queue else tl queue)
       \<and> (o_toggle d \<or> (queue \<noteq> [] \<and> take 1 (hd queue) \<noteq> ''-''))
       \<and> (requiredConsistent t \<longrightarrow> requiredOptionMap t' = requiredOptionMap t - {name})"
proof -
  from run obtain t d where ot: "ot = Some t" and d: "optionDefinitionMap t name = Some d"
    and plain: "\<not> shadowed (optionDefinitionMap t)"
    by (auto simp: consumeToggleOrOption_def split: option.splits if_splits)
  have minus: "requiredConsistent t \<longrightarrow>
      requiredOptionMap (markSupplied name d t) = requiredOptionMap t - {name}"
    using markSupplied_minus [of t name d] d by simp
  show ?thesis
  proof (cases "o_toggle d")
    case True
    with run ot d plain minus show ?thesis
      by (auto simp: consumeToggleOrOption_def Let_def)
  next
    case False
    with run ot d plain obtain t2 where
      opt: "consumeOption name d (markSupplied name d t) queue = Inr (t2, queue')"
      and ot': "ot' = Some t2"
      by (auto simp: consumeToggleOrOption_def Let_def split: sum.splits)
    from consumeOption_success [OF opt] False ot ot' d minus show ?thesis
      by auto
  qed
qed

lemma consumeFlags_None:
  "consumeFlags flags None queue = Inr (ot', queue') \<Longrightarrow>
   flags = [] \<and> ot' = None \<and> queue' = queue"
  by (cases flags) auto

lemma consumeFlags_success:
  assumes "consumeFlags flags (Some t) queue = Inr (ot', queue')"
  shows "\<exists>t'. ot' = Some t'
       \<and> optionDefinitionMap t' = optionDefinitionMap t
       \<and> definitionPrototype t' = definitionPrototype t
       \<and> flagToNameMapping t' = flagToNameMapping t
       \<and> queue' = (if flags \<noteq> [] \<and> valueFlag t (last flags) then tl queue else queue)
       \<and> (flags \<noteq> [] \<and> valueFlag t (last flags) \<longrightarrow>
            queue \<noteq> [] \<and> take 1 (hd queue) \<noteq> ''-'')
       \<and> (requiredConsistent t \<longrightarrow>
            requiredOptionMap t' =
              requiredOptionMap t
              - set (List.map_filter (\<lambda>flag. flagToNameMapping t [flag]) flags))"
  using assms
proof (induction flags arbitrary: t)
  case Nil
  then show ?case by (auto simp: List.map_filter_simps)
next
  case (Cons flag flags)
  from Cons.prems obtain name d where plain: "\<not> shadowed (flagToNameMapping t)"
    and name: "flagToNameMapping t [flag] = Some name"
    and d: "readDefinition t name = Some d"
    by (auto split: option.splits if_splits)
  have minus: "requiredConsistent t \<longrightarrow>
      requiredOptionMap (markSupplied name d t) = requiredOptionMap t - {name}"
    using markSupplied_minus [of t name d] d by (auto simp: readDefinition_def split: if_splits)
  show ?case
  proof (cases "o_toggle d")
    case True
    let ?t1 = "(markSupplied name d t)\<lparr>commandOptions :=
                 setProperty (commandOptions t) name (Bool True)\<rparr>"
    have same: "optionDefinitionMap ?t1 = optionDefinitionMap t"
      "definitionPrototype ?t1 = definitionPrototype t"
      "flagToNameMapping ?t1 = flagToNameMapping t"
      by simp_all
    from Cons.prems toggle_step [OF plain name d True, of flags queue]
    have "consumeFlags flags (Some ?t1) queue = Inr (ot', queue')"
      by simp
    from Cons.IH [OF this] obtain t' where
      t': "ot' = Some t'"
      and maps: "optionDefinitionMap t' = optionDefinitionMap ?t1"
        "definitionPrototype t' = definitionPrototype ?t1"
        "flagToNameMapping t' = flagToNameMapping ?t1"
      and q: "queue' = (if flags \<noteq> [] \<and> valueFlag ?t1 (last flags) then tl queue else queue)"
      and v: "flags \<noteq> [] \<and> valueFlag ?t1 (last flags) \<longrightarrow>
            queue \<noteq> [] \<and> take 1 (hd queue) \<noteq> ''-''"
      and req: "requiredConsistent ?t1 \<longrightarrow>
            requiredOptionMap t' =
              requiredOptionMap ?t1
              - set (List.map_filter (\<lambda>flag. flagToNameMapping ?t1 [flag]) flags)"
      by blast
    have toggle: "\<not> valueFlag t flag"
      using name d True by (simp add: valueFlag_def flagDefinition_def)
    have lastv: "((flag # flags) \<noteq> [] \<and> valueFlag t (last (flag # flags)))
        = (flags \<noteq> [] \<and> valueFlag t (last flags))"
      using toggle by simp
    have cons1: "requiredConsistent t \<longrightarrow> requiredConsistent ?t1"
      using minus requiredConsistent_minus [of t ?t1 "{name}"] by simp
    have req': "requiredConsistent t \<longrightarrow>
            requiredOptionMap t' =
              requiredOptionMap t
              - set (List.map_filter (\<lambda>flag. flagToNameMapping t [flag]) (flag # flags))"
      using req cons1 minus name by (auto simp: List.map_filter_simps)
    show ?thesis
      apply (rule exI [of _ t'])
      using t' maps same q v req' valueFlag_cong [OF same]
      by (simp only: lastv)
  next
    case False
    with Cons.prems plain name d have last: "flags = []"
      by (simp add: Let_def split: if_splits)
    with False Cons.prems plain name d obtain t2 where
      opt: "consumeOption name d (markSupplied name d t) queue = Inr (t2, queue')"
      and ot': "ot' = Some t2"
      by (auto simp: Let_def split: sum.splits)
    have "value": "valueFlag t flag"
      using name d False by (simp add: valueFlag_def flagDefinition_def)
    from consumeOption_success [OF opt] last ot' "value" minus name show ?thesis
      by (auto simp: List.map_filter_simps)
  qed
qed

lemma takesValue_cong:
  "optionDefinitionMap t' = optionDefinitionMap t \<Longrightarrow>
   definitionPrototype t' = definitionPrototype t \<Longrightarrow>
   flagToNameMapping t' = flagToNameMapping t \<Longrightarrow> takesValue (Some t') = takesValue (Some t)"
  using valueFlag_cong [of t' t] by (simp add: takesValue_def fun_eq_iff)

lemma suppliedNames_cong:
  "flagToNameMapping t' = flagToNameMapping t \<Longrightarrow> suppliedNames t' = suppliedNames t"
  by (rule ext) (simp add: suppliedNames_def)

text \<open>A pass of the loop on a token that starts with a hyphen changes the option tables
  only.\<close>

lemma consume_hyphen:
  assumes run: "consume st arg queue = Inr (st', queue')"
    and hyphen: "take 1 arg = ''-''"
  shows "\<exists>ot'. st' = st\<lparr>optionTables := ot'\<rparr>
       \<and> (ot' = None \<longleftrightarrow> optionTables st = None)
       \<and> takesValue ot' = takesValue (optionTables st)
       \<and> queue' = (if takesValue (optionTables st) arg then tl queue else queue)
       \<and> (takesValue (optionTables st) arg \<longrightarrow> queue \<noteq> [] \<and> take 1 (hd queue) \<noteq> ''-'')
       \<and> (\<forall>t. optionTables st = Some t \<and> requiredConsistent t \<longrightarrow>
             (\<exists>t'. ot' = Some t' \<and> requiredConsistent t'
                 \<and> suppliedNames t' = suppliedNames t
                 \<and> requiredOptionMap t' = requiredOptionMap t - suppliedNames t arg))"
proof (cases "take 1 (drop 1 arg) = ''-''")
  case True
  with hyphen run obtain ot' where
    long: "consumeToggleOrOption (drop 2 arg) (optionTables st) queue = Inr (ot', queue')"
    and st': "st' = st\<lparr>optionTables := ot'\<rparr>"
    by (auto simp: consume_def split: sum.splits)
  from consumeToggleOrOption_success [OF long] obtain t t' d where
    t: "optionTables st = Some t" and t': "ot' = Some t'"
    and d: "optionDefinitionMap t (drop 2 arg) = Some d"
    and maps: "optionDefinitionMap t' = optionDefinitionMap t"
      "definitionPrototype t' = definitionPrototype t"
      "flagToNameMapping t' = flagToNameMapping t"
    and q: "queue' = (if o_toggle d then queue else tl queue)"
    and v: "o_toggle d \<or> (queue \<noteq> [] \<and> take 1 (hd queue) \<noteq> ''-'')"
    and req: "requiredConsistent t \<longrightarrow> requiredOptionMap t' = requiredOptionMap t - {drop 2 arg}"
    by blast
  have tv: "takesValue (optionTables st) arg = (\<not> o_toggle d)"
    using t d True by (simp add: takesValue_def)
  have sup: "suppliedNames t arg = {drop 2 arg}"
    using hyphen True by (simp add: suppliedNames_def)
  have cons: "requiredConsistent t \<longrightarrow> requiredConsistent t'"
    using req requiredConsistent_minus [of t t' "{drop 2 arg}"] maps by simp
  have c1: "st' = st\<lparr>optionTables := Some t'\<rparr>"
    using st' t' by simp
  have c2: "(Some t' = None) = (optionTables st = None)"
    using t by simp
  have c3: "takesValue (Some t') = takesValue (optionTables st)"
    using t takesValue_cong [OF maps] by simp
  have c4: "queue' = (if takesValue (optionTables st) arg then tl queue else queue)"
    using q tv by simp
  have c5: "takesValue (optionTables st) arg \<longrightarrow> queue \<noteq> [] \<and> take 1 (hd queue) \<noteq> ''-''"
    using v tv by blast
  have c6: "\<forall>u. optionTables st = Some u \<and> requiredConsistent u \<longrightarrow>
             (\<exists>u'. Some t' = Some u' \<and> requiredConsistent u'
                 \<and> suppliedNames u' = suppliedNames u
                 \<and> requiredOptionMap u' = requiredOptionMap u - suppliedNames u arg)"
    using t req sup cons suppliedNames_cong [OF maps(3)] by simp
  show ?thesis
    by (rule exI [of _ "Some t'"]) (intro conjI c1 c2 c3 c4 c5 c6)
next
  case False
  with hyphen run obtain ot' where
    cluster: "consumeFlags (drop 1 arg) (optionTables st) queue = Inr (ot', queue')"
    and st': "st' = st\<lparr>optionTables := ot'\<rparr>"
    by (auto simp: consume_def split: sum.splits)
  show ?thesis
  proof (cases "optionTables st")
    case None
    with cluster consumeFlags_None [of "drop 1 arg" queue ot' queue'] have
      "ot' = None" "queue' = queue" "drop 1 arg = []"
      by simp_all
    with None st' show ?thesis
      by (simp add: takesValue_def)
  next
    case (Some t)
    with cluster have "consumeFlags (drop 1 arg) (Some t) queue = Inr (ot', queue')"
      by simp
    from consumeFlags_success [OF this] obtain t' where
      t': "ot' = Some t'"
      and maps: "optionDefinitionMap t' = optionDefinitionMap t"
        "definitionPrototype t' = definitionPrototype t"
        "flagToNameMapping t' = flagToNameMapping t"
      and q: "queue' = (if drop 1 arg \<noteq> [] \<and> valueFlag t (last (drop 1 arg))
                        then tl queue else queue)"
      and v: "drop 1 arg \<noteq> [] \<and> valueFlag t (last (drop 1 arg)) \<longrightarrow>
            queue \<noteq> [] \<and> take 1 (hd queue) \<noteq> ''-''"
      and req: "requiredConsistent t \<longrightarrow>
            requiredOptionMap t' =
              requiredOptionMap t
              - set (List.map_filter (\<lambda>flag. flagToNameMapping t [flag]) (drop 1 arg))"
      by blast
    have tv: "takesValue (optionTables st) arg
        = (drop 1 arg \<noteq> [] \<and> valueFlag t (last (drop 1 arg)))"
      using Some False by (simp add: takesValue_def)
    have sup: "suppliedNames t arg
        = set (List.map_filter (\<lambda>flag. flagToNameMapping t [flag]) (drop 1 arg))"
      using hyphen False by (simp add: suppliedNames_def)
    have cons: "requiredConsistent t \<longrightarrow> requiredConsistent t'"
      using req requiredConsistent_minus [of t t'] maps by simp
    have c1: "st' = st\<lparr>optionTables := Some t'\<rparr>"
      using st' t' by simp
    have c2: "(Some t' = None) = (optionTables st = None)"
      using Some by simp
    have c3: "takesValue (Some t') = takesValue (optionTables st)"
      using Some takesValue_cong [OF maps] by simp
    have c4: "queue' = (if takesValue (optionTables st) arg then tl queue else queue)"
      using q tv by simp
    have c5: "takesValue (optionTables st) arg \<longrightarrow> queue \<noteq> [] \<and> take 1 (hd queue) \<noteq> ''-''"
      using v tv by blast
    have c6: "\<forall>u. optionTables st = Some u \<and> requiredConsistent u \<longrightarrow>
               (\<exists>u'. Some t' = Some u' \<and> requiredConsistent u'
                   \<and> suppliedNames u' = suppliedNames u
                   \<and> requiredOptionMap u' = requiredOptionMap u - suppliedNames u arg)"
      using Some req sup cons suppliedNames_cong [OF maps(3)] by simp
    show ?thesis
      by (rule exI [of _ "Some t'"]) (intro conjI c1 c2 c3 c4 c5 c6)
  qed
qed

lemma bindTokens_step:
  assumes "bindTokens st (arg # queue) = Bound st'"
  obtains st1 queue1 where "\<not> isHelp arg" "consume st arg queue = Inr (st1, queue1)"
    "bindTokens st1 queue1 = Bound st'"
  using assms by (auto split: if_splits sum.splits)

section \<open>The help request\<close>

text \<open>Tokens after the ones a complete run consumes do not change what it does with them.\<close>

lemma consumeOption_append:
  "consumeOption name d t queue = Inr (t', queue') \<Longrightarrow>
   consumeOption name d t (queue @ rest) = Inr (t', queue' @ rest)"
  by (auto simp: consumeOption_def split: list.splits if_splits)

lemma consumeToggleOrOption_append:
  assumes run: "consumeToggleOrOption name ot queue = Inr (ot', queue')"
  shows "consumeToggleOrOption name ot (queue @ rest) = Inr (ot', queue' @ rest)"
proof -
  from run obtain t d where ot: "ot = Some t" and d: "optionDefinitionMap t name = Some d"
    and plain: "\<not> shadowed (optionDefinitionMap t)"
    by (auto simp: consumeToggleOrOption_def split: option.splits if_splits)
  show ?thesis
  proof (cases "o_toggle d")
    case True
    with run ot d plain show ?thesis
      by (auto simp: consumeToggleOrOption_def Let_def)
  next
    case False
    with run ot d plain obtain t2 where
      opt: "consumeOption name d (markSupplied name d t) queue = Inr (t2, queue')"
      and ot': "ot' = Some t2"
      by (auto simp: consumeToggleOrOption_def Let_def split: sum.splits)
    from consumeOption_append [OF opt, of rest] False ot ot' d plain show ?thesis
      by (simp add: consumeToggleOrOption_def Let_def)
  qed
qed

lemma consumeFlags_append:
  "consumeFlags flags ot queue = Inr (ot', queue') \<Longrightarrow>
   consumeFlags flags ot (queue @ rest) = Inr (ot', queue' @ rest)"
proof (induction flags arbitrary: ot queue)
  case Nil
  then show ?case by simp
next
  case (Cons flag flags)
  from Cons.prems obtain t name d where ot: "ot = Some t"
    and plain: "\<not> shadowed (flagToNameMapping t)"
    and name: "flagToNameMapping t [flag] = Some name"
    and d: "readDefinition t name = Some d"
    by (auto split: option.splits if_splits)
  show ?case
  proof (cases "o_toggle d")
    case True
    let ?t1 = "(markSupplied name d t)\<lparr>commandOptions :=
                 setProperty (commandOptions t) name (Bool True)\<rparr>"
    from Cons.prems ot toggle_step [OF plain name d True, of flags queue]
    have "consumeFlags flags (Some ?t1) queue = Inr (ot', queue')"
      by simp
    from Cons.IH [OF this] ot toggle_step [OF plain name d True, of flags "queue @ rest"]
    show ?thesis
      by simp
  next
    case False
    with Cons.prems ot plain name d have last: "flags = []"
      by (simp add: Let_def split: if_splits)
    with False Cons.prems ot plain name d obtain t2 where
      opt: "consumeOption name d (markSupplied name d t) queue = Inr (t2, queue')"
      and ot': "ot' = Some t2"
      by (auto simp: Let_def split: sum.splits)
    from consumeOption_append [OF opt, of rest] False last ot ot' plain name d show ?thesis
      by (simp add: Let_def)
  qed
qed

lemma consume_append:
  assumes "consume st arg queue = Inr (st', queue')"
  shows "consume st arg (queue @ rest) = Inr (st', queue' @ rest)"
proof (cases "take 1 arg = ''-''")
  case False
  with assms show ?thesis
    by (simp add: consume_def)
next
  case hyphen: True
  show ?thesis
  proof (cases "take 1 (drop 1 arg) = ''-''")
    case True
    with hyphen assms obtain ot where
      "consumeToggleOrOption (drop 2 arg) (optionTables st) queue = Inr (ot, queue')"
      and "st' = st\<lparr>optionTables := ot\<rparr>"
      by (auto simp: consume_def split: sum.splits)
    with consumeToggleOrOption_append [OF this(1), of rest] hyphen True show ?thesis
      by (simp add: consume_def)
  next
    case False
    with hyphen assms obtain ot where
      "consumeFlags (drop 1 arg) (optionTables st) queue = Inr (ot, queue')"
      and "st' = st\<lparr>optionTables := ot\<rparr>"
      by (auto simp: consume_def split: sum.splits)
    with consumeFlags_append [OF this(1), of rest] hyphen False show ?thesis
      by (simp add: consume_def)
  qed
qed

lemma bindTokens_append:
  "bindTokens st pre = Bound st' \<Longrightarrow> bindTokens st (pre @ rest) = bindTokens st' rest"
proof (induction st pre rule: bindTokens.induct)
  case (1 st)
  then show ?case by simp
next
  case (2 st arg queue)
  from "2.prems" obtain st1 queue1 where nohelp: "\<not> isHelp arg"
    and step: "consume st arg queue = Inr (st1, queue1)" and run: "bindTokens st1 queue1 = Bound st'"
    by (rule bindTokens_step)
  from "2.IH" [OF nohelp step refl run]
  have "bindTokens st1 (queue1 @ rest) = bindTokens st' rest" .
  with nohelp consume_append [OF step, of rest] show ?case
    by simp
qed

text \<open>
  Claim C2, as the code has it. The loop looks at the tokens from left to right and knows
  a help token only when it reaches it. When the tokens before a token \<^verbatim>\<open>-h\<close>, \<^verbatim>\<open>-?\<close> or
  \<^verbatim>\<open>--help\<close> are bound without a fatal error (so also when it is the first token), help is
  invoked with the resolved command sequence, whatever follows the help token; the outcome
  is neither a failure nor a call of \<^verbatim>\<open>execute\<close>.
\<close>

theorem help_after_bound_prefix:
  assumes asked: "isHelp h"
    and bound: "bindTokens (initInvocation command) pre = Bound st"
  shows "load command sequence (pre @ h # post) dir = Help sequence
         \<and> (resolve existsSync rootDir entry argv = (file, sequence, pre @ h # post)
              \<and> require file = Some command \<longrightarrow>
            parse existsSync require rootDir entry argv dir = Help sequence)"
proof -
  from bindTokens_append [OF bound, of "h # post"] asked
  have "bindTokens (initInvocation command) (pre @ h # post) = ShowHelp"
    by simp
  then have "load command sequence (pre @ h # post) dir = Help sequence"
    by (simp add: load_def)
  then show ?thesis
    by (simp add: parse_def)
qed

theorem help_after_bound_prefix_witness:
  "isHelp ''-?''
   \<and> load buildCommand [''cli''] [''widget'', ''-f'', ''-?'', ''--bogus''] ''/home'' = Help [''cli'']"
proof -
  have asked: "isHelp ''-?''"
    by (simp add: isHelp_def)
  have bound: "bindTokens (initInvocation buildCommand) [''widget'', ''-f'']
      = Bound \<lparr>commandArgs = [Str ''widget''], commandExtraArgs = [],
               optionTables = Some (buildTables\<lparr>commandOptions :=
                 [''output'' \<mapsto> Undefined, ''force'' \<mapsto> Bool True]\<rparr>),
               pendingParamDefinitions = [countParam]\<rparr>"
    by (simp add: binding_defs example_defs)
  from help_after_bound_prefix [OF asked bound, of "[''cli'']" "[''--bogus'']" "''/home''"] asked
  show ?thesis by simp
qed

text \<open>
  Claim C2 as stated fails: a help token behind an unknown option, or in the place of a
  value option's value, is never reached; the parse fails.
\<close>

theorem help_not_anywhere_counterexample:
  "isHelp ''--help''
   \<and> load buildCommand [''cli''] [''--bogus'', ''--help''] ''/home''
       = Failure (UnknownOption ''bogus'')
   \<and> load buildCommand [''cli''] [''--output'', ''--help''] ''/home''
       = Failure (OptionValueLooksLikeOption ''--help'' ''output'')"
  by (simp add: binding_defs example_defs)

section \<open>Dispatch\<close>

text \<open>The positional tokens of a queue are the tokens that neither start with a hyphen nor
  are taken as the value of the option before them. A complete run of the loop binds them
  to the parameters in order and collects the rest.\<close>

lemma positionalTokens_cong:
  "takesValue ot' = takesValue ot \<Longrightarrow>
   positionalTokens ot' skip queue = positionalTokens ot skip queue"
  by (induction queue arbitrary: skip) simp_all

lemma positionalTokens_skip:
  "queue \<noteq> [] \<Longrightarrow> positionalTokens ot True queue = positionalTokens ot False (tl queue)"
  by (cases queue) simp_all

lemma bindTokens_positionals:
  assumes "bindTokens st queue = Bound st'"
  shows "commandArgs st' =
           commandArgs st
           @ map2 (\<lambda>a d. castArgument a (p_type d))
               (positionalTokens (optionTables st) False queue) (pendingParamDefinitions st)
       \<and> pendingParamDefinitions st' =
           drop (length (positionalTokens (optionTables st) False queue))
             (pendingParamDefinitions st)
       \<and> commandExtraArgs st' =
           commandExtraArgs st
           @ drop (length (pendingParamDefinitions st))
               (positionalTokens (optionTables st) False queue)
       \<and> (optionTables st' = None \<longleftrightarrow> optionTables st = None)"
  using assms
proof (induction st queue rule: bindTokens.induct)
  case (1 st)
  then show ?case by simp
next
  case (2 st arg queue)
  from "2.prems" obtain st1 queue1 where nohelp: "\<not> isHelp arg"
    and step: "consume st arg queue = Inr (st1, queue1)" and run: "bindTokens st1 queue1 = Bound st'"
    by (rule bindTokens_step)
  note IH = "2.IH" [OF nohelp step refl run]
  show ?case
  proof (cases "take 1 arg = ''-''")
    case False
    with step have st1: "st1 = consumeArgument arg st" and q: "queue1 = queue"
      by (simp_all add: consume_def)
    show ?thesis
    proof (cases "pendingParamDefinitions st")
      case Nil
      with st1 have "pendingParamDefinitions st1 = []" "commandArgs st1 = commandArgs st"
        "commandExtraArgs st1 = commandExtraArgs st @ [arg]"
        "optionTables st1 = optionTables st"
        by (simp_all add: consumeArgument_def)
      with IH q False Nil show ?thesis
        by simp
    next
      case (Cons d ds)
      with st1 have "pendingParamDefinitions st1 = ds"
        "commandArgs st1 = commandArgs st @ [castArgument arg (p_type d)]"
        "commandExtraArgs st1 = commandExtraArgs st" "optionTables st1 = optionTables st"
        by (simp_all add: consumeArgument_def)
      with IH q False Cons show ?thesis
        by simp
    qed
  next
    case True
    from consume_hyphen [OF step True] obtain ot' where
      st1: "st1 = st\<lparr>optionTables := ot'\<rparr>"
      and none: "(ot' = None) = (optionTables st = None)"
      and tv: "takesValue ot' = takesValue (optionTables st)"
      and q: "queue1 = (if takesValue (optionTables st) arg then tl queue else queue)"
      and v: "takesValue (optionTables st) arg \<longrightarrow> queue \<noteq> [] \<and> take 1 (hd queue) \<noteq> ''-''"
      by (elim exE conjE) (rule that)
    have "positionalTokens (optionTables st1) False queue1
        = positionalTokens (optionTables st) False queue1"
      using st1 positionalTokens_cong [OF tv] by simp
    also have "\<dots> = positionalTokens (optionTables st) (takesValue (optionTables st) arg) queue"
      using q v positionalTokens_skip [of queue "optionTables st"] by simp
    also have "\<dots> = positionalTokens (optionTables st) False (arg # queue)"
      using True by simp
    finally have tokens: "positionalTokens (optionTables st1) False queue1
        = positionalTokens (optionTables st) False (arg # queue)" .
    have same: "commandArgs st1 = commandArgs st" "commandExtraArgs st1 = commandExtraArgs st"
      "pendingParamDefinitions st1 = pendingParamDefinitions st"
      "(optionTables st1 = None) = (optionTables st = None)"
      using st1 none by simp_all
    from IH show ?thesis
      unfolding tokens same .
  qed
qed

text \<open>
  Claim C9, as the code has it. When \<^verbatim>\<open>execute\<close> is invoked, its positional arguments are
  the casts of the first positional tokens by the types of the first parameters, in
  declared order, followed by the declared defaults of the parameters no token filled, in
  declared order, one value for each declared parameter; then the options record the loop
  has filled, which is left out exactly when the command's \<^verbatim>\<open>optionDefinitions\<close> is
  undefined; then the context with the working directory, the overflow list, which holds
  the positional tokens beyond the declared parameters in their order, and the command
  sequence.
\<close>

theorem dispatch_arguments:
  assumes "load command sequence queue dir = Execute vals options ctx"
  shows "vals =
        map2 (\<lambda>a d. castArgument a (p_type d))
          (positionals command queue) (paramDefinitions command)
        @ map p_default (drop (length (positionals command queue)) (paramDefinitions command))
    \<and> length vals = length (paramDefinitions command)
    \<and> (\<exists>st. bindTokens (initInvocation command) queue = Bound st
           \<and> options = map_option commandOptions (optionTables st))
    \<and> (options = None \<longleftrightarrow> optionDefinitions command = None)
    \<and> ctx = \<lparr>cwd = dir,
              args = drop (length (paramDefinitions command)) (positionals command queue),
              commands = sequence\<rparr>"
proof -
  from assms obtain st where run: "bindTokens (initInvocation command) queue = Bound st"
    by (auto simp: load_def split: binding.splits)
  with assms have vals: "vals = commandArgs st @ map p_default (pendingParamDefinitions st)"
    and opts: "options = map_option commandOptions (optionTables st)"
    and ctx: "ctx = \<lparr>cwd = dir, args = commandExtraArgs st, commands = sequence\<rparr>"
    by (simp_all add: load_def Let_def split: if_splits)
  from bindTokens_positionals [OF run]
  have bound: "commandArgs st =
        map2 (\<lambda>a d. castArgument a (p_type d))
          (positionals command queue) (paramDefinitions command)"
    and pend: "pendingParamDefinitions st =
        drop (length (positionals command queue)) (paramDefinitions command)"
    and extra: "commandExtraArgs st =
        drop (length (paramDefinitions command)) (positionals command queue)"
    and tabs: "optionTables st = None \<longleftrightarrow> optionDefinitions command = None"
    by (simp_all add: initInvocation_def positionals_def initTables_def split: option.splits)
  have "length vals = length (paramDefinitions command)"
    unfolding vals bound pend by simp
  with run vals opts ctx bound pend extra tabs show ?thesis
    by simp
qed

theorem dispatch_arguments_witness:
  "load tuneCommand [''cli''] [''a'', ''7'', ''b'', ''--level'', ''3'', ''-fr'', ''x'', ''c''] ''/home''
     = Execute [Str ''a'', Num (Finite 7)]
         (Some [''level'' \<mapsto> Num (Finite 3), ''force'' \<mapsto> Bool True, ''raw'' \<mapsto> Undefined])
         \<lparr>cwd = ''/home'', args = [''b'', ''c''], commands = [''cli'']\<rparr>
   \<and> positionals tuneCommand [''a'', ''7'', ''b'', ''--level'', ''3'', ''-fr'', ''x'', ''c'']
       = [''a'', ''7'', ''b'', ''c'']
   \<and> [Str ''a'', Num (Finite 7)] =
        map2 (\<lambda>a d. castArgument a (p_type d))
          (positionals tuneCommand [''a'', ''7'', ''b'', ''--level'', ''3'', ''-fr'', ''x'', ''c''])
          (paramDefinitions tuneCommand)
        @ map p_default
            (drop (length (positionals tuneCommand
                     [''a'', ''7'', ''b'', ''--level'', ''3'', ''-fr'', ''x'', ''c'']))
               (paramDefinitions tuneCommand))
   \<and> \<lparr>cwd = ''/home'', args = [''b'', ''c''], commands = [''cli'']\<rparr> =
        \<lparr>cwd = ''/home'',
         args = drop (length (paramDefinitions tuneCommand))
                  (positionals tuneCommand
                     [''a'', ''7'', ''b'', ''--level'', ''3'', ''-fr'', ''x'', ''c'']),
         commands = [''cli'']\<rparr>
   \<and> load buildCommand [''cli'', ''build''] [''x'', ''--output'', ''y''] ''/home''
     = Execute [Str ''x'', Num (Finite 1)]
         (Some [''force'' \<mapsto> Bool False, ''output'' \<mapsto> Str ''y''])
         \<lparr>cwd = ''/home'', args = [], commands = [''cli'', ''build'']\<rparr>"
proof -
  have run: "load tuneCommand [''cli'']
       [''a'', ''7'', ''b'', ''--level'', ''3'', ''-fr'', ''x'', ''c''] ''/home''
     = Execute [Str ''a'', Num (Finite 7)]
         (Some [''level'' \<mapsto> Num (Finite 3), ''force'' \<mapsto> Bool True, ''raw'' \<mapsto> Undefined])
         \<lparr>cwd = ''/home'', args = [''b'', ''c''], commands = [''cli'']\<rparr>"
    by (simp add: binding_defs example_defs coercion_defs)
  have tokens: "positionals tuneCommand
       [''a'', ''7'', ''b'', ''--level'', ''3'', ''-fr'', ''x'', ''c''] = [''a'', ''7'', ''b'', ''c'']"
    by (simp add: positionals_def takesValue_def valueFlag_def flagDefinition_def
        binding_defs example_defs)
  have other: "load buildCommand [''cli'', ''build''] [''x'', ''--output'', ''y''] ''/home''
     = Execute [Str ''x'', Num (Finite 1)]
         (Some [''force'' \<mapsto> Bool False, ''output'' \<mapsto> Str ''y''])
         \<lparr>cwd = ''/home'', args = [], commands = [''cli'', ''build'']\<rparr>"
    by (simp add: binding_defs example_defs coercion_defs)
  note facts = dispatch_arguments [OF run]
  from facts [THEN conjunct1]
    facts [THEN conjunct2, THEN conjunct2, THEN conjunct2, THEN conjunct2]
  have "[Str ''a'', Num (Finite 7)] =
        map2 (\<lambda>a d. castArgument a (p_type d))
          (positionals tuneCommand [''a'', ''7'', ''b'', ''--level'', ''3'', ''-fr'', ''x'', ''c''])
          (paramDefinitions tuneCommand)
        @ map p_default
            (drop (length (positionals tuneCommand
                     [''a'', ''7'', ''b'', ''--level'', ''3'', ''-fr'', ''x'', ''c'']))
               (paramDefinitions tuneCommand))"
    and "\<lparr>cwd = ''/home'', args = [''b'', ''c''], commands = [''cli'']\<rparr> =
        \<lparr>cwd = ''/home'',
         args = drop (length (paramDefinitions tuneCommand))
                  (positionals tuneCommand
                     [''a'', ''7'', ''b'', ''--level'', ''3'', ''-fr'', ''x'', ''c'']),
         commands = [''cli'']\<rparr>"
    by this+
  with run tokens other show ?thesis
    by blast
qed

text \<open>
  Claim C9 as stated fails in one direction: a command whose list of option definitions is
  empty declares no option, and still \<^verbatim>\<open>execute\<close> gets an options record, an empty one,
  since an empty array is truthy in \<^verbatim>\<open>if (optionDefinitions)\<close>.
\<close>

theorem options_record_counterexample:
  "optionDefinitions plainCommand = Some []
   \<and> load plainCommand [''cli''] [] ''/home''
       = Execute [] (Some Map.empty) \<lparr>cwd = ''/home'', args = [], commands = [''cli'']\<rparr>"
  by (simp add: binding_defs example_defs)

section \<open>Required options\<close>

text \<open>The tables built from the option definitions.\<close>

lemma registerOption_fields:
  "o_name d \<noteq> ''__proto__'' \<Longrightarrow>
   optionDefinitionMap (registerOption d t) = (optionDefinitionMap t)(o_name d \<mapsto> d)"
  "o_name d \<noteq> ''__proto__'' \<Longrightarrow>
   requiredOptionMap (registerOption d t) =
     (if o_required d then insert (o_name d) (requiredOptionMap t) else requiredOptionMap t)"
  "flagToNameMapping (registerOption d t) =
     (case o_flag d of
        None \<Rightarrow> flagToNameMapping t
      | Some f \<Rightarrow> if f = [] \<or> f = ''__proto__'' then flagToNameMapping t
                  else (flagToNameMapping t)(f \<mapsto> o_name d))"
  by (simp_all add: registerOption_def setDefinition_def setProperty_def Let_def
      split: option.splits)

lemma init_required:
  "''__proto__'' \<notin> set (map o_name ds) \<Longrightarrow>
   requiredOptionMap (fold registerOption ds emptyTables) = o_name ` {d \<in> set ds. o_required d}"
proof (induction ds rule: rev_induct)
  case Nil
  then show ?case by (simp add: emptyTables_def)
next
  case (snoc d ds)
  from snoc.prems have "o_name d \<noteq> ''__proto__''" "''__proto__'' \<notin> set (map o_name ds)"
    by auto
  with snoc.IH show ?case by (auto simp: registerOption_fields)
qed

lemma init_definitions:
  "distinct (map o_name ds) \<Longrightarrow> ''__proto__'' \<notin> set (map o_name ds) \<Longrightarrow>
   optionDefinitionMap (fold registerOption ds emptyTables) n = Some d
     \<longleftrightarrow> d \<in> set ds \<and> o_name d = n"
proof (induction ds rule: rev_induct)
  case Nil
  then show ?case by (simp add: emptyTables_def)
next
  case (snoc d' ds)
  from snoc.prems have dist: "distinct (map o_name ds)"
    and fresh: "\<And>x. x \<in> set ds \<Longrightarrow> o_name x \<noteq> o_name d'"
    and plain: "o_name d' \<noteq> ''__proto__''" "''__proto__'' \<notin> set (map o_name ds)"
    by (auto simp: image_iff)
  show ?case
  proof (cases "n = o_name d'")
    case True
    with fresh plain show ?thesis
      by (auto simp: registerOption_fields)
  next
    case False
    with snoc.IH [OF dist plain(2)] plain show ?thesis
      by (auto simp: registerOption_fields)
  qed
qed

lemma init_flags_sound:
  "flagToNameMapping (fold registerOption ds emptyTables) f = Some n \<Longrightarrow>
   \<exists>d \<in> set ds. o_flag d = Some f \<and> o_name d = n"
proof (induction ds rule: rev_induct)
  case Nil
  then show ?case by (simp add: emptyTables_def)
next
  case (snoc d' ds)
  then show ?case
    by (auto simp: registerOption_fields split: option.splits if_splits)
qed

lemma map_filter_flags:
  "List.map_filter o_flag (ds @ [d]) =
     List.map_filter o_flag ds @ (case o_flag d of None \<Rightarrow> [] | Some f \<Rightarrow> [f])"
  "f \<in> set (List.map_filter o_flag ds) \<longleftrightarrow> (\<exists>x \<in> set ds. o_flag x = Some f)"
  by (force simp: List.map_filter_def split: option.splits)+

lemma init_flags_complete:
  "distinct (List.map_filter o_flag ds) \<Longrightarrow> d \<in> set ds \<Longrightarrow> o_flag d = Some f \<Longrightarrow>
   f \<noteq> [] \<and> f \<noteq> ''__proto__'' \<Longrightarrow>
   flagToNameMapping (fold registerOption ds emptyTables) f = Some (o_name d)"
proof (induction ds rule: rev_induct)
  case Nil
  then show ?case by simp
next
  case (snoc d' ds)
  show ?case
  proof (cases "d = d'")
    case True
    with snoc.prems show ?thesis
      by (simp add: registerOption_fields)
  next
    case False
    with snoc.prems have d: "d \<in> set ds" by simp
    from snoc.prems have dist: "distinct (List.map_filter o_flag ds)"
      by (simp add: map_filter_flags(1))
    from d snoc.prems(3) have "f \<in> set (List.map_filter o_flag ds)"
      by (auto simp: map_filter_flags(2))
    with snoc.prems(1) have "o_flag d' \<noteq> Some f"
      by (auto simp: map_filter_flags(1))
    with snoc.IH [OF dist d snoc.prems(3,4)] show ?thesis
      by (simp add: registerOption_fields split: option.splits)
  qed
qed


text \<open>The names pending as required after a complete run of the loop are the ones pending
  at its start without the names the tokens supply.\<close>

lemma bindTokens_required:
  assumes "bindTokens st queue = Bound st'"
    and "optionTables st = Some t"
    and "requiredConsistent t"
  shows "\<exists>t'. optionTables st' = Some t'
           \<and> requiredOptionMap t' = requiredOptionMap t - (\<Union>arg \<in> set queue. suppliedNames t arg)"
  using assms
proof (induction st queue arbitrary: t rule: bindTokens.induct)
  case (1 st)
  then show ?case by simp
next
  case (2 st arg queue)
  from "2.prems"(1) obtain st1 queue1 where nohelp: "\<not> isHelp arg"
    and step: "consume st arg queue = Inr (st1, queue1)" and run: "bindTokens st1 queue1 = Bound st'"
    by (rule bindTokens_step)
  show ?case
  proof (cases "take 1 arg = ''-''")
    case False
    with step have tabs1: "optionTables st1 = Some t" and q: "queue1 = queue"
      using "2.prems"(2) by (auto simp: consume_def consumeArgument_def split: list.splits)
    from False have "suppliedNames t arg = {}"
      by (simp add: suppliedNames_def)
    with "2.IH" [OF nohelp step refl run tabs1 "2.prems"(3)] q show ?thesis
      by simp
  next
    case True
    from consume_hyphen [OF step True] obtain ot' where
      st1: "st1 = st\<lparr>optionTables := ot'\<rparr>"
      and q: "queue1 = (if takesValue (optionTables st) arg then tl queue else queue)"
      and v: "takesValue (optionTables st) arg \<longrightarrow> queue \<noteq> [] \<and> take 1 (hd queue) \<noteq> ''-''"
      and req: "\<forall>t. optionTables st = Some t \<and> requiredConsistent t \<longrightarrow>
             (\<exists>t'. ot' = Some t' \<and> requiredConsistent t'
                 \<and> suppliedNames t' = suppliedNames t
                 \<and> requiredOptionMap t' = requiredOptionMap t - suppliedNames t arg)"
      by (elim exE conjE) (rule that)
    from req "2.prems"(2,3) obtain t1 where ot': "ot' = Some t1"
      and cons1: "requiredConsistent t1"
      and same: "suppliedNames t1 = suppliedNames t"
      and req1: "requiredOptionMap t1 = requiredOptionMap t - suppliedNames t arg"
      by blast
    from st1 ot' have tabs1: "optionTables st1 = Some t1"
      by simp
    from "2.IH" [OF nohelp step refl run tabs1 cons1] obtain t' where
      tabs': "optionTables st' = Some t'"
      and req': "requiredOptionMap t' =
        requiredOptionMap t1 - (\<Union>a \<in> set queue1. suppliedNames t1 a)"
      by blast
    have "(\<Union>a \<in> set queue. suppliedNames t a) = (\<Union>a \<in> set queue1. suppliedNames t a)"
    proof (cases "takesValue (optionTables st) arg")
      case False
      with q show ?thesis by simp
    next
      case True
      with v q obtain tok where "queue = tok # queue1" "take 1 tok \<noteq> ''-''"
        by (cases queue) auto
      then show ?thesis
        by (simp add: suppliedNames_def)
    qed
    with tabs' req' req1 same show ?thesis
      by auto
  qed
qed

lemma in_map_filter:
  "n \<in> set (List.map_filter f xs) \<longleftrightarrow> (\<exists>x \<in> set xs. f x = Some n)"
  by (force simp: List.map_filter_def)

lemma two_hyphens:
  "take 1 arg = ''-'' \<Longrightarrow> take 1 (drop 1 arg) = ''-'' \<Longrightarrow> arg = ''--'' @ drop 2 arg"
  by (cases arg; cases "tl arg") auto

lemma supplied_iff:
  assumes names: "distinct (map o_name ds)"
    and flags: "distinct (List.map_filter o_flag ds)"
    and d: "d \<in> set ds"
  shows "o_name d \<in> suppliedNames (fold registerOption ds emptyTables) arg \<longleftrightarrow> suppliedBy d arg"
proof -
  let ?t = "fold registerOption ds emptyTables"
  have flag: "flagToNameMapping ?t [c] = Some (o_name d) \<longleftrightarrow> o_flag d = Some [c]" for c
  proof
    assume "flagToNameMapping ?t [c] = Some (o_name d)"
    from init_flags_sound [OF this] obtain x where
      x: "x \<in> set ds" "o_flag x = Some [c]" "o_name x = o_name d"
      by blast
    with names d have "x = d"
      by (auto simp: distinct_map dest: inj_onD)
    with x show "o_flag d = Some [c]" by simp
  next
    assume "o_flag d = Some [c]"
    from init_flags_complete [OF flags d this] show "flagToNameMapping ?t [c] = Some (o_name d)"
      by simp
  qed
  show ?thesis
  proof (cases "take 1 arg = ''-''")
    case False
    then show ?thesis
      by (auto simp: suppliedNames_def suppliedBy_def)
  next
    case hyphen: True
    show ?thesis
    proof (cases "take 1 (drop 1 arg) = ''-''")
      case True
      with hyphen two_hyphens [OF hyphen True] show ?thesis
        by (auto simp: suppliedNames_def suppliedBy_def)
    next
      case False
      then have "arg \<noteq> ''--'' @ o_name d"
        by auto
      with hyphen False show ?thesis
        by (simp add: suppliedNames_def suppliedBy_def in_map_filter list_ex_iff flag)
    qed
  qed
qed


lemma init_consistent:
  assumes names: "distinct (map o_name ds)"
    and plain: "''__proto__'' \<notin> set (map o_name ds)"
  shows "requiredConsistent (fold registerOption ds emptyTables)"
proof -
  have "o_required d"
    if "n \<in> requiredOptionMap (fold registerOption ds emptyTables)"
      and "optionDefinitionMap (fold registerOption ds emptyTables) n = Some d" for n d
  proof -
    from that(1) obtain x where x: "x \<in> set ds" "o_required x" "o_name x = n"
      by (auto simp: init_required [OF plain])
    from that(2) have "d \<in> set ds" "o_name d = n"
      by (simp_all add: init_definitions [OF names plain])
    with x names have "x = d"
      by (auto simp: distinct_map dest: inj_onD)
    with x show ?thesis by simp
  qed
  moreover have "''__proto__'' \<notin> requiredOptionMap (fold registerOption ds emptyTables)"
    using plain by (auto simp: init_required [OF plain])
  ultimately show ?thesis
    by (auto simp: requiredConsistent_def split: option.splits)
qed

lemma pending_is_missing:
  assumes names: "distinct (map o_name ds)"
    and flags: "distinct (List.map_filter o_flag ds)"
    and plain: "''__proto__'' \<notin> set (map o_name ds)"
  shows "requiredOptionMap (fold registerOption ds emptyTables)
           - (\<Union>arg \<in> set queue. suppliedNames (fold registerOption ds emptyTables) arg)
         = missingOptions ds queue"
proof -
  let ?t = "fold registerOption ds emptyTables"
  have "n \<in> requiredOptionMap ?t - (\<Union>arg \<in> set queue. suppliedNames ?t arg)
        \<longleftrightarrow> n \<in> missingOptions ds queue" for n
  proof
    assume "n \<in> requiredOptionMap ?t - (\<Union>arg \<in> set queue. suppliedNames ?t arg)"
    then obtain d where d: "d \<in> set ds" "o_required d" "o_name d = n"
      and none: "\<forall>arg \<in> set queue. o_name d \<notin> suppliedNames ?t arg"
      by (auto simp: init_required [OF plain])
    from none supplied_iff [OF names flags d(1)] have "\<not> list_ex (suppliedBy d) queue"
      by (simp add: list_ex_iff)
    with d show "n \<in> missingOptions ds queue"
      by (auto simp: missingOptions_def)
  next
    assume "n \<in> missingOptions ds queue"
    then obtain d where d: "d \<in> set ds" "o_required d" "o_name d = n"
      and none: "\<not> list_ex (suppliedBy d) queue"
      by (auto simp: missingOptions_def)
    from none supplied_iff [OF names flags d(1)]
    have "\<forall>arg \<in> set queue. o_name d \<notin> suppliedNames ?t arg"
      by (simp add: list_ex_iff)
    with d show "n \<in> requiredOptionMap ?t - (\<Union>arg \<in> set queue. suppliedNames ?t arg)"
      by (auto simp: init_required [OF plain])
  qed
  then show ?thesis by blast
qed

text \<open>
  Claim C5, as the code has it. Let the option names and the flags of the command be
  unique and no option be named \<^verbatim>\<open>__proto__\<close>, let the token queue be exhausted without
  help and without error, and let the positional count reach the required-parameter count
  (that check comes first). Then a
  required option that no token supplies, neither by its long name nor by its flag, makes
  \<^verbatim>\<open>load\<close> fail with \<^verbatim>\<open>MissingRequiredOptions\<close>, and the error names exactly the required
  options not supplied, all of them; a required option supplied by its long name or by
  its flag is not among them, and with none missing \<^verbatim>\<open>execute\<close> is invoked.
\<close>

theorem missing_required_options:
  assumes defs: "optionDefinitions command = Some ds"
    and names: "distinct (map o_name ds)"
    and flags: "distinct (List.map_filter o_flag ds)"
    and plain: "''__proto__'' \<notin> set (map o_name ds)"
    and run: "bindTokens (initInvocation command) queue = Bound st"
    and count: "requiredParamsNumber command \<le> length (commandArgs st)"
  shows "(missingOptions ds queue \<noteq> {} \<longrightarrow>
            load command sequence queue dir
              = Failure (MissingRequiredOptions (missingOptions ds queue)))
       \<and> (missingOptions ds queue = {} \<longrightarrow>
            (\<exists>values options context.
               load command sequence queue dir = Execute values options context))
       \<and> (\<forall>d \<in> set ds.
            o_name d \<in> missingOptions ds queue
              \<longleftrightarrow> o_required d \<and> \<not> list_ex (suppliedBy d) queue)"
proof -
  let ?t = "fold registerOption ds emptyTables"
  from defs have tabs: "optionTables (initInvocation command) = Some ?t"
    by (simp add: initInvocation_def initTables_def)
  from bindTokens_required [OF run tabs init_consistent [OF names plain]] obtain t' where
    t': "optionTables st = Some t'"
    and "requiredOptionMap t' = requiredOptionMap ?t - (\<Union>arg \<in> set queue. suppliedNames ?t arg)"
    by blast
  with pending_is_missing [OF names flags plain] have req: "requiredOptionMap t' = missingOptions ds queue"
    by simp
  have member: "o_name d \<in> missingOptions ds queue
      \<longleftrightarrow> o_required d \<and> \<not> list_ex (suppliedBy d) queue" if d: "d \<in> set ds" for d
  proof
    assume "o_name d \<in> missingOptions ds queue"
    then obtain x where x: "x \<in> set ds" "o_required x" "\<not> list_ex (suppliedBy x) queue"
      "o_name x = o_name d"
      by (auto simp: missingOptions_def)
    with names d have "x = d"
      by (auto simp: distinct_map dest: inj_onD)
    with x show "o_required d \<and> \<not> list_ex (suppliedBy d) queue" by simp
  next
    assume "o_required d \<and> \<not> list_ex (suppliedBy d) queue"
    with d show "o_name d \<in> missingOptions ds queue"
      by (auto simp: missingOptions_def)
  qed
  from run count t' req member show ?thesis
    by (simp add: load_def Let_def)
qed

theorem missing_required_options_witness:
  "missingOptions [forceOption, outputOption] [''x'', ''-f''] = {''output''}
   \<and> load buildCommand [''cli''] [''x'', ''-f''] ''/home''
       = Failure (MissingRequiredOptions {''output''})
   \<and> missingOptions [forceOption, outputOption] [''x'', ''-fo'', ''y''] = {}
   \<and> (\<exists>values options context.
         load buildCommand [''cli''] [''x'', ''-fo'', ''y''] ''/home''
           = Execute values options context)"
proof -
  have defs: "optionDefinitions buildCommand = Some [forceOption, outputOption]"
    by (simp add: buildCommand_def)
  have names: "distinct (map o_name [forceOption, outputOption])"
    and flags: "distinct (List.map_filter o_flag [forceOption, outputOption])"
    and plain: "''__proto__'' \<notin> set (map o_name [forceOption, outputOption])"
    by (simp_all add: example_defs List.map_filter_simps)
  have run1: "bindTokens (initInvocation buildCommand) [''x'', ''-f'']
      = Bound \<lparr>commandArgs = [Str ''x''], commandExtraArgs = [],
               optionTables = Some (buildTables\<lparr>commandOptions :=
                 [''output'' \<mapsto> Undefined, ''force'' \<mapsto> Bool True]\<rparr>),
               pendingParamDefinitions = [countParam]\<rparr>"
    by (simp add: binding_defs example_defs)
  have run2: "bindTokens (initInvocation buildCommand) [''x'', ''-fo'', ''y'']
      = Bound \<lparr>commandArgs = [Str ''x''], commandExtraArgs = [],
               optionTables = Some (buildTables\<lparr>commandOptions :=
                 [''force'' \<mapsto> Bool True, ''output'' \<mapsto> Str ''y''],
                 requiredOptionMap := {}\<rparr>),
               pendingParamDefinitions = [countParam]\<rparr>"
    by (simp add: binding_defs example_defs)
  have m1: "missingOptions [forceOption, outputOption] [''x'', ''-f''] = {''output''}"
    and m2: "missingOptions [forceOption, outputOption] [''x'', ''-fo'', ''y''] = {}"
    by (simp_all add: missingOptions_def suppliedBy_def example_defs)
  from missing_required_options [OF defs names flags plain run1, of "[''cli'']" "''/home''"] m1
  have a: "load buildCommand [''cli''] [''x'', ''-f''] ''/home''
       = Failure (MissingRequiredOptions {''output''})"
    by (simp add: buildCommand_def)
  from missing_required_options [OF defs names flags plain run2, of "[''cli'']" "''/home''"] m2
  have b: "\<exists>values options context.
         load buildCommand [''cli''] [''x'', ''-fo'', ''y''] ''/home''
           = Execute values options context"
    by (simp add: buildCommand_def)
  from m1 a m2 b show ?thesis by blast
qed

text \<open>
  Claim C5 as stated, for every invocation, fails: with the required option \<^verbatim>\<open>output\<close>
  never supplied, an empty tail fails on the positional count instead, and a tail with a
  help token does not fail at all.
\<close>

theorem required_option_not_reported_counterexample:
  "outputOption \<in> set [forceOption, outputOption] \<and> o_required outputOption
   \<and> optionDefinitions buildCommand = Some [forceOption, outputOption]
   \<and> \<not> list_ex (suppliedBy outputOption) []
   \<and> load buildCommand [''cli''] [] ''/home'' = Failure (InsufficientPositionalArguments 1 0)
   \<and> \<not> list_ex (suppliedBy outputOption) [''x'', ''--help'']
   \<and> load buildCommand [''cli''] [''x'', ''--help''] ''/home'' = Help [''cli'']"
  by (simp add: binding_defs example_defs suppliedBy_def)


text \<open>A required option named \<^verbatim>\<open>__proto__\<close> is never pending: the assignment
  \<^verbatim>\<open>requiredOptionMap['__proto__'] = true\<close> makes no key, and \<^verbatim>\<open>execute\<close> is invoked without the
  option being supplied.\<close>

lemma proto_required_not_reported:
  "o_required protoOption \<and> o_name protoOption = ''__proto__''
   \<and> optionDefinitions protoCommand = Some [protoOption]
   \<and> missingOptions [protoOption] [] = {''__proto__''}
   \<and> load protoCommand [''cli''] [] ''/home''
       = Execute [] (Some Map.empty) \<lparr>cwd = ''/home'', args = [], commands = [''cli'']\<rparr>"
  by (simp add: binding_defs example_defs missingOptions_def suppliedBy_def)
section \<open>Where the resolution ends\<close>

lemma walk_argsIndex:
  "argsIndex r \<le> i \<Longrightarrow> argsIndex (walk existsSync i r toks) \<le> i + length toks"
proof (induction toks arbitrary: i r)
  case Nil
  then show ?case by simp
next
  case (Cons arg toks)
  let ?path = "pathJoin (searchPath r) arg"
  show ?case
  proof (cases "validCommandName arg")
    case False
    with Cons.prems show ?thesis by simp
  next
    case valid: True
    show ?thesis
    proof (cases "find existsSync (possiblePaths ?path)")
      case (Some p)
      let ?r1 = "r\<lparr>searchPath := ?path, filename := p, argsIndex := i + 1,
                   commandSequence := commandSequence r @ [arg]\<rparr>"
      have "argsIndex (walk existsSync (i + 1) ?r1 toks) \<le> (i + 1) + length toks"
        by (rule Cons.IH) simp
      with valid Some show ?thesis by (simp add: Let_def)
    next
      case None
      have "argsIndex (walk existsSync (i + 1) (r\<lparr>searchPath := ?path\<rparr>) toks)
              \<le> (i + 1) + length toks"
        by (rule Cons.IH) (use Cons.prems in simp)
      with valid None Cons.prems show ?thesis by (simp add: Let_def)
    qed
  qed
qed

text \<open>Up to the first token that ends it, the walk does not depend on what follows.\<close>

lemma walk_halts:
  assumes "passes existsSync (searchPath r) pre"
    and "halts existsSync (foldl pathJoin (searchPath r) pre) arg"
  shows "filename (walk existsSync i r (pre @ arg # post)) = filename (walk existsSync i r pre)
       \<and> commandSequence (walk existsSync i r (pre @ arg # post))
           = commandSequence (walk existsSync i r pre)
       \<and> argsIndex (walk existsSync i r (pre @ arg # post)) = argsIndex (walk existsSync i r pre)"
  using assms
proof (induction pre arbitrary: i r)
  case Nil
  then show ?case
    by (simp add: halts_def Let_def split: if_splits)
next
  case (Cons a pre)
  let ?path = "pathJoin (searchPath r) a"
  from Cons.prems(1) have valid: "validCommandName a"
    and found: "find existsSync (possiblePaths ?path) \<noteq> None \<or> existsSync ?path"
    and rest: "passes existsSync ?path pre"
    by (auto simp: halts_def split: if_splits)
  show ?case
  proof (cases "find existsSync (possiblePaths ?path)")
    case (Some p)
    let ?r1 = "r\<lparr>searchPath := ?path, filename := p, argsIndex := i + 1,
                 commandSequence := commandSequence r @ [a]\<rparr>"
    from rest Cons.prems(2) have "passes existsSync (searchPath ?r1) pre"
      "halts existsSync (foldl pathJoin (searchPath ?r1) pre) arg"
      by simp_all
    from Cons.IH [OF this, of "i + 1"] valid Some show ?thesis
      by (simp add: Let_def)
  next
    case None
    let ?r1 = "r\<lparr>searchPath := ?path\<rparr>"
    from rest Cons.prems(2) have "passes existsSync (searchPath ?r1) pre"
      "halts existsSync (foldl pathJoin (searchPath ?r1) pre) arg"
      by simp_all
    from Cons.IH [OF this, of "i + 1"] valid None found show ?thesis
      by (simp add: Let_def)
  qed
qed

text \<open>
  Claim C1, as the code has it. The resolver ends at the first token that fails the
  command-name grammar or for which neither the leaf module, nor the default module of
  the subdirectory, nor the subdirectory itself exists: the file and the command sequence
  are those resolved from the tokens before it, and that token and all tokens after it
  are argument tokens. A token for which neither module exists while the subdirectory
  does, does not end the resolution: the walk goes on with the next token, below that
  subdirectory.
\<close>

theorem resolution_halts:
  assumes two: "length front = 2"
    and before: "passes existsSync rootDir pre"
    and ends: "halts existsSync (foldl pathJoin rootDir pre) arg"
    and short: "resolve existsSync rootDir entry (front @ pre) = (file, sequence, queue)"
  shows "resolve existsSync rootDir entry (front @ pre @ arg # post)
           = (file, sequence, queue @ arg # post)
         \<and> (validCommandName tok
              \<and> find existsSync (possiblePaths (pathJoin (searchPath r) tok)) = None
              \<and> existsSync (pathJoin (searchPath r) tok) \<longrightarrow>
            filename (walk existsSync i r (tok # rest))
              = filename (walk existsSync (i + 1)
                           (r\<lparr>searchPath := pathJoin (searchPath r) tok\<rparr>) rest)
            \<and> argsIndex (walk existsSync i r (tok # rest))
              = argsIndex (walk existsSync (i + 1)
                            (r\<lparr>searchPath := pathJoin (searchPath r) tok\<rparr>) rest))"
proof -
  let ?r = "initResolution rootDir entry"
  from before ends have "passes existsSync (searchPath ?r) pre"
    "halts existsSync (foldl pathJoin (searchPath ?r) pre) arg"
    by (simp_all add: initResolution_def)
  note same = walk_halts [OF this, of 2 post]
  have "argsIndex (walk existsSync 2 ?r pre) \<le> 2 + length pre"
    by (rule walk_argsIndex) (simp add: initResolution_def)
  with two have "drop (argsIndex (walk existsSync 2 ?r pre)) (front @ pre @ arg # post)
      = drop (argsIndex (walk existsSync 2 ?r pre)) (front @ pre) @ arg # post"
    by simp
  with same two short
  have "resolve existsSync rootDir entry (front @ pre @ arg # post)
           = (file, sequence, queue @ arg # post)"
    by (simp add: resolve_def Let_def)
  then show ?thesis
    by (simp add: Let_def)
qed

theorem resolution_halts_witness:
  "passes exampleTree ''/cli'' [''foo'']
   \<and> halts exampleTree (foldl pathJoin ''/cli'' [''foo'']) ''--x''
   \<and> resolve exampleTree ''/cli'' ''cli'' [''node'', ''cli'', ''foo'', ''--x'', ''y'']
       = (''/cli/foo.js'', [''cli'', ''foo''], [''--x'', ''y''])
   \<and> halts exampleTree (foldl pathJoin ''/cli'' [''foo'']) ''nothing''
   \<and> resolve exampleTree ''/cli'' ''cli'' [''node'', ''cli'', ''foo'', ''nothing'', ''y'']
       = (''/cli/foo.js'', [''cli'', ''foo''], [''nothing'', ''y''])"
proof -
  have two: "length [''node'', ''cli''] = 2"
    by simp
  have before: "passes exampleTree ''/cli'' [''foo'']"
    by (simp add: halts_def resolving_defs)
  have ends: "halts exampleTree (foldl pathJoin ''/cli'' [''foo'']) ''--x''"
    "halts exampleTree (foldl pathJoin ''/cli'' [''foo'']) ''nothing''"
    by (simp_all add: halts_def resolving_defs)
  have short: "resolve exampleTree ''/cli'' ''cli'' ([''node'', ''cli''] @ [''foo''])
       = (''/cli/foo.js'', [''cli'', ''foo''], [])"
    by (simp add: resolving_defs)
  from resolution_halts [OF two before ends(1) short, of "[''y'']"]
  have a: "resolve exampleTree ''/cli'' ''cli'' [''node'', ''cli'', ''foo'', ''--x'', ''y'']
       = (''/cli/foo.js'', [''cli'', ''foo''], [''--x'', ''y''])"
    by simp
  from resolution_halts [OF two before ends(2) short, of "[''y'']"]
  have b: "resolve exampleTree ''/cli'' ''cli'' [''node'', ''cli'', ''foo'', ''nothing'', ''y'']
       = (''/cli/foo.js'', [''cli'', ''foo''], [''nothing'', ''y''])"
    by simp
  from before ends a b show ?thesis by blast
qed

text \<open>
  Claim C1 as stated fails where it has the resolution stop at a token whose subdirectory
  exists without a module: with the directory \<^verbatim>\<open>sub\<close> holding \<^verbatim>\<open>bar.js\<close> and no default
  module, the tokens \<^verbatim>\<open>sub bar x\<close> resolve to \<^verbatim>\<open>sub/bar.js\<close> with the one argument \<^verbatim>\<open>x\<close>,
  not to the root's default module with three arguments.
\<close>

theorem directory_only_counterexample:
  "validCommandName ''sub''
   \<and> find exampleTree (possiblePaths (pathJoin ''/cli'' ''sub'')) = None
   \<and> exampleTree (pathJoin ''/cli'' ''sub'')
   \<and> resolve exampleTree ''/cli'' ''cli'' [''node'', ''cli'', ''sub'', ''bar'', ''x'']
       = (''/cli/sub/bar.js'', [''cli'', ''bar''], [''x''])
   \<and> resolve exampleTree ''/cli'' ''cli'' [''node'', ''cli'', ''sub'', ''bar'', ''x'']
       \<noteq> (''/cli/default.js'', [''cli''], [''sub'', ''bar'', ''x''])"
  by (simp add: resolving_defs)

end
